theory Spec2Isabelle
  imports Complex_Main
begin

section \<open>Exceptions and Python objects\<close>

text \<open>
  The module \<^verbatim>\<open>bat_tracking_pipeline.py\<close> is glue code around third-party libraries.
  An exception is a class and a message. \<open>except Exception\<close> catches the instances of
  \<open>Exception\<close> only: \<open>BaseOnly\<close> stands for the classes that derive from
  \<open>BaseException\<close> directly (\<open>KeyboardInterrupt\<close>, \<open>SystemExit\<close>), which that clause lets
  through. \<open>PlainException\<close> is the class \<open>Exception\<close> itself, \<open>LibraryError\<close> any other
  subclass of it that a library raises.
\<close>

datatype exc_kind =
  NameError | AttributeError | IndexError | ValueError | PlainException | LibraryError | BaseOnly

datatype exc = Exc (kind: exc_kind) (message: string)

definition isinstance_Exception :: "exc \<Rightarrow> bool" where
  "isinstance_Exception e = (kind e \<noteq> BaseOnly)"

definition quoted :: "string \<Rightarrow> string" where
  "quoted n = CHR 0x27 # n @ [CHR 0x27]"

definition name_error :: "string \<Rightarrow> exc" where
  "name_error n = Exc NameError (''name '' @ quoted n @ '' is not defined'')"

definition attribute_error :: "string \<Rightarrow> string \<Rightarrow> exc" where
  "attribute_error cls n = Exc AttributeError (quoted cls @ '' object has no attribute '' @ quoted n)"

text \<open>A Python value held in an attribute: \<open>None\<close> or a library object, named by a handle.\<close>

datatype pyobj = PyNone | Obj nat

section \<open>Data passed between the pipeline steps\<close>

text \<open>
  The dictionaries have fixed keys, so they are records. A trajectory entry has the keys
  \<open>position\<close> and \<open>angle\<close>; a detection has those and \<open>confidence\<close>. Floats are read as the
  reals they denote (no NaN: a confidence is stored only after \<open>conf[0] > 0.30\<close> held).
\<close>

record trajectory_entry =
  position :: "real list"
  angle :: real

record detection = trajectory_entry +
  confidence :: real

record frame_data =
  timestamp :: real
  bat_detections :: "detection list"
  bat_angle :: "real option"

type_synonym trajectory = "trajectory_entry option list"

type_synonym frame = string

text \<open>What \<open>bat_model.predict\<close> returns, as far as the code reads it: \<open>timestamp\<close> and
  \<open>boxes\<close>, each box with its tensors \<open>conf\<close> and \<open>xyxy\<close>.\<close>

record box =
  conf :: "real list"
  xyxy :: "real list list"

datatype prediction = Prediction (pred_timestamp: real) (boxes: "box list")

record analysis_results =
  sequence_length :: nat
  bat_trajectory :: "trajectory option"
  swing_metrics :: "string \<rightharpoonup> int option"
  game_situation :: "string option"
  analysis_timestamp :: string

section \<open>Effects: the object, the trace and the libraries\<close>

text \<open>
  Everything the program does to the outside is an event of the trace: what it prints, and
  each call into a library, with the result where a later step uses it.
\<close>

datatype event =
    Printed string
  | Slept int
  | Logged string
  | Called string
  | Load_model string "exc + string"
  | Photo_dataset string nat string
  | Predict frame "exc + prediction"
  | Inference frame string
  | Clock

text \<open>
  The libraries are parameters. Each call sees the events so far, so a library may answer
  differently from one call to the next. The last four fields are what the names \<open>YOLO\<close>,
  \<open>time.sleep\<close>, \<open>setup_logging\<close> and \<open>interpolate_missing_trajectories\<close> would run if
  the module bound them; whether it does is decided by the name tables below.
\<close>

record env =
  LoadTools_new :: "event list \<Rightarrow> exc + nat"
  DataTools_new :: "event list \<Rightarrow> exc + nat"
  Florence2_new :: "event list \<Rightarrow> exc + nat"
  load_model :: "event list \<Rightarrow> nat \<Rightarrow> string \<Rightarrow> exc + string"
  generate_photo_dataset :: "event list \<Rightarrow> nat \<Rightarrow> string \<Rightarrow> nat \<Rightarrow> string \<Rightarrow> exc + frame list"
  predict :: "event list \<Rightarrow> nat \<Rightarrow> frame \<Rightarrow> real \<Rightarrow> bool \<Rightarrow> exc + prediction"
  inference :: "event list \<Rightarrow> nat \<Rightarrow> frame \<Rightarrow> string \<Rightarrow> exc + string"
  logger_info :: "event list \<Rightarrow> nat \<Rightarrow> string \<Rightarrow> exc + unit"
  np_arctan2 :: "real \<Rightarrow> real \<Rightarrow> real"
  np_degrees :: "real \<Rightarrow> real"
  datetime_now_isoformat :: "event list \<Rightarrow> string"
  YOLO_new :: "event list \<Rightarrow> string \<Rightarrow> exc + nat"
  time_sleep :: "event list \<Rightarrow> int \<Rightarrow> exc + unit"
  setup_logging :: "event list \<Rightarrow> exc + unit"
  interpolate_missing_trajectories :: "event list \<Rightarrow> trajectory \<Rightarrow> exc + trajectory option"

text \<open>
  The instance attributes of a \<open>BatTrackingPipeline\<close>: the four that \<open>__init__\<close> assigns and
  \<open>logger\<close>, which \<open>process_sequence\<close> reads and no method assigns. \<open>None\<close> is an attribute
  the object does not have.
\<close>

record pipeline =
  load_tools :: "pyobj option"
  data_tools :: "pyobj option"
  bat_model :: "pyobj option"
  context_model :: "pyobj option"
  logger :: "pyobj option"

record state =
  pipeline_obj :: pipeline
  trace :: "event list"

type_synonym 'a prog = "state \<Rightarrow> (exc + 'a) \<times> state"

definition ret :: "'a \<Rightarrow> 'a prog" where
  "ret a s = (Inr a, s)"

definition raise :: "exc \<Rightarrow> 'a prog" where
  "raise e s = (Inl e, s)"

definition lift :: "exc + 'a \<Rightarrow> 'a prog" where
  "lift r s = (r, s)"

definition pbind :: "'a prog \<Rightarrow> ('a \<Rightarrow> 'b prog) \<Rightarrow> 'b prog" where
  "pbind m f s = (case m s of (Inl e, s') \<Rightarrow> (Inl e, s') | (Inr a, s') \<Rightarrow> f a s')"

definition ext_call :: "(event list \<Rightarrow> exc + 'a) \<Rightarrow> (exc + 'a \<Rightarrow> event) \<Rightarrow> 'a prog" where
  "ext_call f ev s = (let r = f (trace s) in (r, s\<lparr>trace := trace s @ [ev r]\<rparr>))"

definition print :: "string \<Rightarrow> unit prog" where
  "print line s = (Inr (), s\<lparr>trace := trace s @ [Printed line]\<rparr>)"

text \<open>\<open>try: body  except Exception as e: handler\<close>.\<close>

definition try_except_Exception :: "'a prog \<Rightarrow> (exc \<Rightarrow> 'a prog) \<Rightarrow> 'a prog" where
  "try_except_Exception body handler s =
     (case body s of
        (Inr a, s') \<Rightarrow> (Inr a, s')
      | (Inl e, s') \<Rightarrow> if isinstance_Exception e then handler e s' else (Inl e, s'))"

subsection \<open>Name resolution\<close>

text \<open>The names the module binds (its imports, its class and its function) and the
  builtins it uses; the methods the class body defines.\<close>

definition module_names :: "string list" where
  "module_names = [''LoadTools'', ''DataTools'', ''Florence2'', ''cv2'', ''np'', ''datetime'',
     ''BatTrackingPipeline'', ''analyze_baseball_swing'']"

definition builtin_names :: "string list" where
  "builtin_names = [''range'', ''Exception'', ''print'', ''enumerate'', ''max'', ''len'', ''str'']"

definition class_attributes :: "string list" where
  "class_attributes = [''__init__'', ''load_model_with_retry'', ''process_sequence'',
     ''process_frame_results'', ''calculate_bat_angle'', ''analyze_sequence'',
     ''extract_clean_trajectories'', ''calculate_swing_metrics'']"

definition global_name :: "string \<Rightarrow> unit prog" where
  "global_name n =
     (if n \<in> set (module_names @ builtin_names) then ret () else raise (name_error n))"

definition method_name :: "string \<Rightarrow> unit prog" where
  "method_name n =
     (if n \<in> set class_attributes then ret ()
      else raise (attribute_error ''BatTrackingPipeline'' n))"

definition getattr :: "(pipeline \<Rightarrow> pyobj option) \<Rightarrow> string \<Rightarrow> pyobj prog" where
  "getattr slot n s =
     (case slot (pipeline_obj s) of
        Some v \<Rightarrow> (Inr v, s)
      | None \<Rightarrow> (Inl (attribute_error ''BatTrackingPipeline'' n), s))"

text \<open>The object a method is called on: \<open>None\<close> has no methods.\<close>

definition receiver :: "pyobj \<Rightarrow> string \<Rightarrow> nat prog" where
  "receiver v m =
     (case v of Obj r \<Rightarrow> ret r | PyNone \<Rightarrow> raise (attribute_error ''NoneType'' m))"

subsection \<open>Formatting integers\<close>

function str_nat :: "nat \<Rightarrow> string" where
  "str_nat n =
     (if n < 10 then [''0123456789'' ! n]
      else str_nat (n div 10) @ [''0123456789'' ! (n mod 10)])"
  by pat_completeness auto
termination
  by (relation "measure (\<lambda>n. n)") auto

definition str_int :: "int \<Rightarrow> string" where
  "str_int i = (if i < 0 then CHR ''-'' # str_nat (nat (- i)) else str_nat (nat i))"

definition py_range :: "int \<Rightarrow> int list" where
  "py_range n = map int [0..<nat n]"

section \<open>Loading the model\<close>

text \<open>The body of the \<open>try\<close> in \<open>load_model_with_retry\<close>:
  \<open>model_path = self.load_tools.load_model(model_name); return YOLO(model_path)\<close>.\<close>

definition load_attempt :: "env \<Rightarrow> string \<Rightarrow> pyobj prog" where
  "load_attempt E model_name =
     pbind (getattr load_tools ''load_tools'') (\<lambda>lt.
     pbind (receiver lt ''load_model'') (\<lambda>r.
     pbind (ext_call (\<lambda>h. load_model E h r model_name) (Load_model model_name)) (\<lambda>model_path.
     pbind (global_name ''YOLO'') (\<lambda>_.
     pbind (ext_call (\<lambda>h. YOLO_new E h model_path) (\<lambda>_. Called ''YOLO'')) (\<lambda>m.
     ret (Obj m))))))"

text \<open>The \<open>for\<close> loop over \<open>range(max_attempts)\<close>. A handler that neither raises nor returns
  falls through to the next attempt; an exhausted range falls off the end of the
  function, which returns \<open>None\<close>.\<close>

fun retry_loop :: "env \<Rightarrow> string \<Rightarrow> int \<Rightarrow> int list \<Rightarrow> pyobj prog" where
  "retry_loop E model_name max_attempts [] = ret PyNone"
| "retry_loop E model_name max_attempts (attempt # rest) =
     try_except_Exception (load_attempt E model_name) (\<lambda>e.
       if attempt = max_attempts - 1
       then raise (Exc PlainException
              (''Failed to load model after '' @ str_int max_attempts @ '' attempts''))
       else
         pbind (print (''Attempt '' @ str_int (attempt + 1) @ '' failed, retrying...'')) (\<lambda>_.
         pbind (global_name ''time'') (\<lambda>_.
         pbind (ext_call (\<lambda>h. time_sleep E h 1) (\<lambda>_. Slept 1)) (\<lambda>_.
         retry_loop E model_name max_attempts rest))))"

definition load_model_with_retry :: "env \<Rightarrow> string \<Rightarrow> int \<Rightarrow> pyobj prog" where
  "load_model_with_retry E model_name max_attempts =
     retry_loop E model_name max_attempts (py_range max_attempts)"

section \<open>The constructor\<close>

definition setattr :: "(pipeline \<Rightarrow> pipeline) \<Rightarrow> unit prog" where
  "setattr upd s = (Inr (), s\<lparr>pipeline_obj := upd (pipeline_obj s)\<rparr>)"

definition BatTrackingPipeline_init :: "env \<Rightarrow> unit prog" where
  "BatTrackingPipeline_init E =
     pbind (ext_call (LoadTools_new E) (\<lambda>_. Called ''LoadTools'')) (\<lambda>lt.
     pbind (setattr (\<lambda>p. p\<lparr>load_tools := Some (Obj lt)\<rparr>)) (\<lambda>_.
     pbind (ext_call (DataTools_new E) (\<lambda>_. Called ''DataTools'')) (\<lambda>dt.
     pbind (setattr (\<lambda>p. p\<lparr>data_tools := Some (Obj dt)\<rparr>)) (\<lambda>_.
     pbind (load_model_with_retry E ''bat_tracking'' 3) (\<lambda>m.
     pbind (setattr (\<lambda>p. p\<lparr>bat_model := Some m\<rparr>)) (\<lambda>_.
     pbind (ext_call (Florence2_new E) (\<lambda>_. Called ''Florence2'')) (\<lambda>c.
     pbind (setattr (\<lambda>p. p\<lparr>context_model := Some (Obj c)\<rparr>)) (\<lambda>_.
     pbind (method_name ''setup_logging'') (\<lambda>_.
     ext_call (setup_logging E) (\<lambda>_. Called ''setup_logging''))))))))))"

section \<open>One frame\<close>

definition ebind :: "exc + 'a \<Rightarrow> ('a \<Rightarrow> exc + 'b) \<Rightarrow> exc + 'b" where
  "ebind r f = (case r of Inl e \<Rightarrow> Inl e | Inr a \<Rightarrow> f a)"

text \<open>\<open>t[0]\<close> on a tensor or list.\<close>

definition index0 :: "'a list \<Rightarrow> exc + 'a" where
  "index0 xs =
     (case xs of [] \<Rightarrow> Inl (Exc IndexError ''index 0 is out of bounds'') | x # _ \<Rightarrow> Inr x)"

text \<open>\<open>x1, y1, x2, y2 = bat_box\<close> needs exactly four values.\<close>

definition calculate_bat_angle :: "env \<Rightarrow> real list \<Rightarrow> exc + real" where
  "calculate_bat_angle E bat_box =
     (case bat_box of
        [x1, y1, x2, y2] \<Rightarrow> Inr (np_degrees E (np_arctan2 E (y2 - y1) (x2 - x1)))
      | _ \<Rightarrow>
        Inl (Exc ValueError
          (if length bat_box < 4
           then ''not enough values to unpack (expected 4, got ''
                  @ str_int (int (length bat_box)) @ '')''
           else ''too many values to unpack (expected 4)'')))"

text \<open>The loop over \<open>bat_results.boxes\<close>, appending to \<open>frame_data['bat_detections']\<close>.\<close>

fun boxes_loop :: "env \<Rightarrow> box list \<Rightarrow> detection list \<Rightarrow> exc + detection list" where
  "boxes_loop E [] acc = Inr acc"
| "boxes_loop E (d # rest) acc =
     ebind (index0 (conf d)) (\<lambda>c.
       if c > 3 / 10 then
         ebind (index0 (xyxy d)) (\<lambda>bat_box.
         ebind (calculate_bat_angle E bat_box) (\<lambda>a.
         boxes_loop E rest (acc @ [\<lparr>position = bat_box, angle = a, confidence = c\<rparr>])))
       else boxes_loop E rest acc)"

definition process_frame_results :: "env \<Rightarrow> prediction \<Rightarrow> exc + frame_data" where
  "process_frame_results E bat_results =
     ebind (boxes_loop E (boxes bat_results) []) (\<lambda>ds.
     Inr \<lparr>timestamp = pred_timestamp bat_results, bat_detections = ds, bat_angle = None\<rparr>)"

section \<open>The sequence\<close>

text \<open>Python's \<open>max(xs, key=...)\<close>: the first of the largest items, and an error on an
  empty list.\<close>

fun max_from :: "('a \<Rightarrow> real) \<Rightarrow> 'a \<Rightarrow> 'a list \<Rightarrow> 'a" where
  "max_from key best [] = best"
| "max_from key best (x # xs) = max_from key (if key x > key best then x else best) xs"

definition py_max :: "('a \<Rightarrow> real) \<Rightarrow> 'a list \<Rightarrow> exc + 'a" where
  "py_max key xs =
     (case xs of
        [] \<Rightarrow> Inl (Exc ValueError ''max() arg is an empty sequence'')
      | x # rest \<Rightarrow> Inr (max_from key x rest))"

text \<open>The loop of \<open>extract_clean_trajectories\<close>, appending to \<open>trajectories\<close>.\<close>

fun trajectories_loop :: "frame_data list \<Rightarrow> trajectory \<Rightarrow> exc + trajectory" where
  "trajectories_loop [] trajectories = Inr trajectories"
| "trajectories_loop (fd # rest) trajectories =
     (if bat_detections fd \<noteq> [] then
        ebind (py_max confidence (bat_detections fd)) (\<lambda>best_detection.
        trajectories_loop rest
          (trajectories @ [Some \<lparr>position = position best_detection, angle = angle best_detection\<rparr>]))
      else trajectories_loop rest (trajectories @ [None]))"

definition extract_clean_trajectories :: "env \<Rightarrow> frame_data list \<Rightarrow> trajectory option prog" where
  "extract_clean_trajectories E sequence_data =
     pbind (lift (trajectories_loop sequence_data [])) (\<lambda>trajectories.
     pbind (method_name ''interpolate_missing_trajectories'') (\<lambda>_.
     ext_call (\<lambda>h. interpolate_missing_trajectories E h trajectories)
       (\<lambda>_. Called ''interpolate_missing_trajectories'')))"

text \<open>\<open>if bat_trajectory:\<close> is false for \<open>None\<close> and for the empty list.\<close>

definition truthy :: "trajectory option \<Rightarrow> bool" where
  "truthy t = (case t of None \<Rightarrow> False | Some xs \<Rightarrow> xs \<noteq> [])"

definition calculate_swing_metrics :: "trajectory option \<Rightarrow> (string \<rightharpoonup> int option)" where
  "calculate_swing_metrics trajectory_arg =
     (let metrics = [''max_bat_speed'' \<mapsto> Some 0, ''swing_plane_angle'' \<mapsto> Some 0,
                     ''contact_point'' \<mapsto> None, ''swing_duration'' \<mapsto> Some 0]
      in if truthy trajectory_arg then metrics else metrics)"

definition analyze_sequence ::
  "env \<Rightarrow> frame_data list \<Rightarrow> string option \<Rightarrow> analysis_results prog" where
  "analyze_sequence E sequence_data game_context =
     pbind (extract_clean_trajectories E sequence_data) (\<lambda>cleaned.
     pbind (ret (calculate_swing_metrics cleaned)) (\<lambda>metrics.
     pbind (ext_call (\<lambda>h. Inr (datetime_now_isoformat E h)) (\<lambda>_. Clock)) (\<lambda>now.
     ret \<lparr>sequence_length = length sequence_data, bat_trajectory = cleaned,
          swing_metrics = metrics, game_situation = game_context,
          analysis_timestamp = now\<rparr>)))"

definition logger_call :: "env \<Rightarrow> string \<Rightarrow> unit prog" where
  "logger_call E msg =
     pbind (getattr logger ''logger'') (\<lambda>lg.
     pbind (receiver lg ''info'') (\<lambda>r.
     ext_call (\<lambda>h. logger_info E h r msg) (\<lambda>_. Logged msg)))"

text \<open>The \<open>for idx, frame in enumerate(frames)\<close> loop, with the two variables it
  updates, \<open>sequence_data\<close> and \<open>game_context\<close>.\<close>

fun frame_loop ::
  "env \<Rightarrow> nat \<Rightarrow> frame list \<Rightarrow> frame_data list \<Rightarrow> string option
     \<Rightarrow> (frame_data list \<times> string option) prog" where
  "frame_loop E idx [] sequence_data game_context = ret (sequence_data, game_context)"
| "frame_loop E idx (frame # rest) sequence_data game_context =
     pbind (getattr bat_model ''bat_model'') (\<lambda>bm.
     pbind (receiver bm ''predict'') (\<lambda>r.
     pbind (ext_call (\<lambda>h. predict E h r frame (3 / 10) False) (Predict frame)) (\<lambda>bat_results.
     pbind (if idx = 0 then
              pbind (logger_call E ''Analyzing game context'') (\<lambda>_.
              pbind (getattr context_model ''context_model'') (\<lambda>cm.
              pbind (receiver cm ''inference'') (\<lambda>c.
              pbind (ext_call (\<lambda>h. inference E h c frame ''<BATTING_CONTEXT>'')
                       (\<lambda>_. Inference frame ''<BATTING_CONTEXT>'')) (\<lambda>g.
              ret (Some g)))))
            else ret game_context) (\<lambda>game_context'.
     pbind (lift (process_frame_results E bat_results)) (\<lambda>frame_data.
     frame_loop E (idx + 1) rest (sequence_data @ [frame_data]) game_context')))))"

definition process_sequence :: "env \<Rightarrow> string \<Rightarrow> analysis_results prog" where
  "process_sequence E video_path =
     pbind (logger_call E ''Extracting frames from video sequence'') (\<lambda>_.
     pbind (getattr data_tools ''data_tools'') (\<lambda>dt.
     pbind (receiver dt ''generate_photo_dataset'') (\<lambda>r.
     pbind (ext_call (\<lambda>h. generate_photo_dataset E h r video_path 60 ''swing_analysis_frames'')
              (\<lambda>_. Photo_dataset video_path 60 ''swing_analysis_frames'')) (\<lambda>frames.
     pbind (logger_call E ''Beginning frame analysis'') (\<lambda>_.
     pbind (frame_loop E 0 frames [] None) (\<lambda>(sequence_data, game_context).
     analyze_sequence E sequence_data game_context))))))"

section \<open>The entry point\<close>

text \<open>\<open>analyze_baseball_swing\<close> builds the pipeline first; its \<open>try\<close> statement, with the
  call of \<open>process_sequence\<close> and the handler, comes after.\<close>

definition analyze_baseball_swing_try :: "env \<Rightarrow> string \<Rightarrow> analysis_results option prog" where
  "analyze_baseball_swing_try E video_path =
     try_except_Exception
       (pbind (process_sequence E video_path) (\<lambda>results.
        pbind (print (''Successfully analyzed swing sequence of ''
                 @ str_int (int (sequence_length results)) @ '' frames'')) (\<lambda>_.
        ret (Some results))))
       (\<lambda>e. pbind (print (''Analysis failed: '' @ message e)) (\<lambda>_. ret None))"

definition new_pipeline :: pipeline where
  "new_pipeline = \<lparr>load_tools = None, data_tools = None, bat_model = None,
     context_model = None, logger = None\<rparr>"

definition analyze_baseball_swing :: "env \<Rightarrow> string \<Rightarrow> analysis_results option prog" where
  "analyze_baseball_swing E video_path =
     pbind (setattr (\<lambda>_. new_pipeline)) (\<lambda>_.
     pbind (BatTrackingPipeline_init E) (\<lambda>_.
     analyze_baseball_swing_try E video_path))"

section \<open>Notions used in the statements\<close>

text \<open>The trajectory entry of one frame, as the loop of \<open>extract_clean_trajectories\<close>
  computes it.\<close>

definition best_entry :: "detection list \<Rightarrow> trajectory_entry option" where
  "best_entry ds =
     (case ds of
        [] \<Rightarrow> None
      | d # rest \<Rightarrow> Some \<lparr>position = position (max_from confidence d rest),
                          angle = angle (max_from confidence d rest)\<rparr>)"

text \<open>The calls of \<open>bat_model.predict\<close> that returned, in the order of the trace: the frame
  and the prediction.\<close>

fun predictions :: "event list \<Rightarrow> (frame \<times> prediction) list" where
  "predictions [] = []"
| "predictions (Predict f (Inr p) # evs) = (f, p) # predictions evs"
| "predictions (ev # evs) = predictions evs"

subsection \<open>Properties of programs\<close>

text \<open>A program that leaves the pipeline object as it found it, and a program that ends
  in an exception from every state.\<close>

definition keeps_object :: "'a prog \<Rightarrow> bool" where
  "keeps_object m = (\<forall>s. pipeline_obj (snd (m s)) = pipeline_obj s)"

definition always_raises :: "'a prog \<Rightarrow> bool" where
  "always_raises m = (\<forall>s. \<exists>e s'. m s = (Inl e, s'))"

text \<open>The frames on which \<open>bat_model.predict\<close> was called, whether or not the call
  returned, in the order of the trace; a program that does not call it.\<close>

fun predict_calls :: "event list \<Rightarrow> frame list" where
  "predict_calls [] = []"
| "predict_calls (Predict f r # evs) = f # predict_calls evs"
| "predict_calls (ev # evs) = predict_calls evs"

definition calm :: "'a prog \<Rightarrow> bool" where
  "calm m = (\<forall>s. \<exists>new. trace (snd (m s)) = trace s @ new \<and> predict_calls new = [])"


text \<open>The frames on which the context model was asked, in the order of the trace; a
  program that does not ask it, and one that asks it at most once and then on \<open>f\<close>.\<close>

fun inferences :: "event list \<Rightarrow> frame list" where
  "inferences [] = []"
| "inferences (Inference f task # evs) = f # inferences evs"
| "inferences (ev # evs) = inferences evs"

definition quiet :: "'a prog \<Rightarrow> bool" where
  "quiet m = (\<forall>s. \<exists>new. trace (snd (m s)) = trace s @ new \<and> inferences new = [])"

definition infers_at_most :: "frame \<Rightarrow> 'a prog \<Rightarrow> bool" where
  "infers_at_most f m =
     (\<forall>s. \<exists>new. trace (snd (m s)) = trace s @ new \<and>
        (inferences new = [] \<or> inferences new = [f]))"

subsection \<open>Concrete libraries and objects\<close>

text \<open>A library environment in which every call succeeds: the video has two frames, the
  first with three boxes (one under the threshold), the second with none.\<close>

definition demo_boxes :: "box list" where
  "demo_boxes = [\<lparr>conf = [1 / 2], xyxy = [[0, 0, 1, 1]]\<rparr>,
                 \<lparr>conf = [9 / 10], xyxy = [[2, 3, 4, 5]]\<rparr>,
                 \<lparr>conf = [1 / 5], xyxy = [[7, 7, 8, 8]]\<rparr>]"

definition demo_env :: env where
  "demo_env = \<lparr>
     LoadTools_new = (\<lambda>h. Inr 1),
     DataTools_new = (\<lambda>h. Inr 2),
     Florence2_new = (\<lambda>h. Inr 4),
     load_model = (\<lambda>h r n. Inr (n @ ''.pt'')),
     generate_photo_dataset = (\<lambda>h r path n dir. Inr [''frame_0'', ''frame_1'']),
     predict = (\<lambda>h r f c v.
        Inr (if f = ''frame_0'' then Prediction 0 demo_boxes else Prediction 1 [])),
     inference = (\<lambda>h r f task. Inr ''two outs, runner on first''),
     logger_info = (\<lambda>h r msg. Inr ()),
     np_arctan2 = (\<lambda>y x. if 0 < x then arctan (y / x) else 0),
     np_degrees = (\<lambda>a. a * 180 / pi),
     datetime_now_isoformat = (\<lambda>h. ''2024-05-01T12:00:00''),
     YOLO_new = (\<lambda>h path. Inr 3),
     time_sleep = (\<lambda>h n. Inr ()),
     setup_logging = (\<lambda>h. Inr ()),
     interpolate_missing_trajectories = (\<lambda>h t. Inr (Some t))\<rparr>"

text \<open>The same, with a model file that cannot be loaded, and with a video of no
  frames.\<close>

definition failing_env :: env where
  "failing_env = demo_env\<lparr>load_model := (\<lambda>h r n. Inl (Exc LibraryError ''model not found''))\<rparr>"

definition no_frames_env :: env where
  "no_frames_env = demo_env\<lparr>generate_photo_dataset := (\<lambda>h r path n dir. Inr [])\<rparr>"

text \<open>A state before the constructor has run, the state in which the constructor
  leaves the object when it runs from there with \<open>demo_env\<close>, and a state whose object
  has all five attributes.\<close>

definition fresh_state :: state where
  "fresh_state = \<lparr>pipeline_obj = new_pipeline, trace = []\<rparr>"


definition ready_state :: state where
  "ready_state = \<lparr>pipeline_obj = \<lparr>load_tools = Some (Obj 1), data_tools = Some (Obj 2),
     bat_model = Some (Obj 3), context_model = Some (Obj 4), logger = Some (Obj 5)\<rparr>,
     trace = []\<rparr>"

definition demo_sequence :: "frame_data list" where
  "demo_sequence =
     [\<lparr>timestamp = 0,
       bat_detections = [\<lparr>position = [0, 0, 1, 1], angle = 45, confidence = 1 / 2\<rparr>,
                         \<lparr>position = [2, 3, 4, 5], angle = 30, confidence = 9 / 10\<rparr>],
       bat_angle = None\<rparr>,
      \<lparr>timestamp = 1, bat_detections = [], bat_angle = None\<rparr>]"

text \<open>What the frame loop computes and records with \<open>demo_env\<close>, and the events of
  \<open>process_sequence\<close> before the loop.\<close>

definition demo_sequence_data :: "frame_data list" where
  "demo_sequence_data =
     [\<lparr>timestamp = 0,
       bat_detections = [\<lparr>position = [0, 0, 1, 1], angle = 45, confidence = 1 / 2\<rparr>,
                         \<lparr>position = [2, 3, 4, 5], angle = 45, confidence = 9 / 10\<rparr>],
       bat_angle = None\<rparr>,
      \<lparr>timestamp = 1, bat_detections = [], bat_angle = None\<rparr>]"

definition demo_prefix :: "event list" where
  "demo_prefix = [Logged ''Extracting frames from video sequence'',
     Photo_dataset ''swing_sequence.mp4'' 60 ''swing_analysis_frames'',
     Logged ''Beginning frame analysis'']"

definition demo_loop_events :: "event list" where
  "demo_loop_events = [Predict ''frame_0'' (Inr (Prediction 0 demo_boxes)),
     Logged ''Analyzing game context'', Inference ''frame_0'' ''<BATTING_CONTEXT>'',
     Predict ''frame_1'' (Inr (Prediction 1 []))]"

section \<open>Evaluating the combinators\<close>

lemmas prog_defs = ret_def raise_def lift_def pbind_def ext_call_def print_def
  try_except_Exception_def global_name_def method_name_def getattr_def receiver_def
  module_names_def builtin_names_def class_attributes_def setattr_def
  isinstance_Exception_def name_error_def attribute_error_def quoted_def Let_def

section \<open>Swing metrics\<close>

text \<open>
  C6. For every trajectory it is given, \<open>None\<close> and the empty list included,
  \<open>calculate_swing_metrics\<close> returns the same placeholder dictionary: speed, plane angle
  and duration 0 and no contact point. The branch on the trajectory changes nothing.
\<close>

theorem calculate_swing_metrics_placeholder:
  "calculate_swing_metrics t =
     [''max_bat_speed'' \<mapsto> Some 0, ''swing_plane_angle'' \<mapsto> Some 0,
      ''contact_point'' \<mapsto> None, ''swing_duration'' \<mapsto> Some 0]"
  by (simp add: calculate_swing_metrics_def)

section \<open>The best detection of each frame\<close>

lemma max_from_mem: "max_from key best xs \<in> set (best # xs)"
  by (induction xs arbitrary: best) auto

lemma max_from_ge_best: "key best \<le> key (max_from key best xs)"
proof (induction xs arbitrary: best)
  case Nil
  show ?case by simp
next
  case (Cons x xs)
  have "key best \<le> key (if key x > key best then x else best)" by simp
  also have "\<dots> \<le> key (max_from key (if key x > key best then x else best) xs)"
    by (rule Cons.IH)
  finally show ?case by simp
qed

lemma max_from_ge: "y \<in> set (best # xs) \<Longrightarrow> key y \<le> key (max_from key best xs)"
proof (induction xs arbitrary: best)
  case Nil
  then show ?case by simp
next
  case (Cons x xs)
  let ?b = "if key x > key best then x else best"
  have step: "key best \<le> key ?b" "key x \<le> key ?b" by auto
  from Cons.prems consider "y = best" | "y = x" | "y \<in> set xs" by auto
  then show ?case
  proof cases
    case 1
    then show ?thesis using step(1) max_from_ge_best [of key ?b xs] by simp
  next
    case 2
    then show ?thesis using step(2) max_from_ge_best [of key ?b xs] by simp
  next
    case 3
    then show ?thesis using Cons.IH [of ?b] by simp
  qed
qed

lemma trajectories_loop_map:
  "trajectories_loop sd acc = Inr (acc @ map (\<lambda>fd. best_entry (bat_detections fd)) sd)"
proof (induction sd arbitrary: acc)
  case Nil
  show ?case by simp
next
  case (Cons fd rest)
  show ?case
  proof (cases "bat_detections fd")
    case Nil
    then show ?thesis using Cons.IH [of "acc @ [None]"] by (simp add: best_entry_def)
  next
    case (Cons d ds)
    then show ?thesis
      using Cons.IH [of "acc @ [best_entry (bat_detections fd)]"]
      by (simp add: best_entry_def py_max_def ebind_def)
  qed
qed

lemma best_entry_Nil: "best_entry [] = None"
  by (simp add: best_entry_def)

lemma best_entry_highest:
  assumes "ds \<noteq> []"
  shows "\<exists>d \<in> set ds. best_entry ds = Some \<lparr>position = position d, angle = angle d\<rparr> \<and>
           (\<forall>d' \<in> set ds. confidence d' \<le> confidence d)"
proof -
  from assms obtain d0 rest where ds: "ds = d0 # rest" by (cases ds) auto
  let ?b = "max_from confidence d0 rest"
  have "?b \<in> set ds" using max_from_mem [of confidence d0 rest] ds by simp
  moreover have "best_entry ds = Some \<lparr>position = position ?b, angle = angle ?b\<rparr>"
    by (simp add: ds best_entry_def)
  moreover have "\<forall>d' \<in> set ds. confidence d' \<le> confidence ?b"
    using max_from_ge [of _ d0 rest confidence] ds by simp
  ultimately show ?thesis by blast
qed

text \<open>
  C2. The loop of \<open>extract_clean_trajectories\<close> builds one entry for each frame, in order.
  For a frame with detections the entry has the position and the angle of a detection of
  that frame whose confidence no other detection of the frame exceeds; for a frame
  without detections the entry is \<open>None\<close>.
\<close>

theorem extract_clean_trajectories_best_detection:
  "\<exists>ts. trajectories_loop sequence_data [] = Inr ts \<and> length ts = length sequence_data \<and>
     (\<forall>i < length sequence_data.
        (bat_detections (sequence_data ! i) = [] \<longrightarrow> ts ! i = None) \<and>
        (bat_detections (sequence_data ! i) \<noteq> [] \<longrightarrow>
           (\<exists>d \<in> set (bat_detections (sequence_data ! i)).
              ts ! i = Some \<lparr>position = position d, angle = angle d\<rparr> \<and>
              (\<forall>d' \<in> set (bat_detections (sequence_data ! i)).
                 confidence d' \<le> confidence d))))"
proof (intro exI conjI allI impI)
  show "trajectories_loop sequence_data [] =
          Inr (map (\<lambda>fd. best_entry (bat_detections fd)) sequence_data)"
    using trajectories_loop_map [of sequence_data "[]"] by simp
  show "length (map (\<lambda>fd. best_entry (bat_detections fd)) sequence_data) = length sequence_data"
    by simp
next
  fix i assume "i < length sequence_data" "bat_detections (sequence_data ! i) = []"
  then show "map (\<lambda>fd. best_entry (bat_detections fd)) sequence_data ! i = None"
    by (simp add: best_entry_Nil)
next
  fix i assume "i < length sequence_data" "bat_detections (sequence_data ! i) \<noteq> []"
  then show "\<exists>d \<in> set (bat_detections (sequence_data ! i)).
      map (\<lambda>fd. best_entry (bat_detections fd)) sequence_data ! i
        = Some \<lparr>position = position d, angle = angle d\<rparr> \<and>
      (\<forall>d' \<in> set (bat_detections (sequence_data ! i)). confidence d' \<le> confidence d)"
    using best_entry_highest [of "bat_detections (sequence_data ! i)"] by simp
qed

theorem extract_clean_trajectories_best_detection_witness:
  "\<exists>ts. trajectories_loop demo_sequence [] = Inr ts \<and>
     0 < length demo_sequence \<and> bat_detections (demo_sequence ! 0) \<noteq> [] \<and>
     ts ! 0 = Some \<lparr>position = [2, 3, 4, 5], angle = 30\<rparr> \<and>
     1 < length demo_sequence \<and> bat_detections (demo_sequence ! 1) = [] \<and>
     ts ! 1 = None"
proof -
  from extract_clean_trajectories_best_detection [of demo_sequence] obtain ts where
    ts: "trajectories_loop demo_sequence [] = Inr ts"
    and al: "\<forall>i < length demo_sequence.
        (bat_detections (demo_sequence ! i) = [] \<longrightarrow> ts ! i = None) \<and>
        (bat_detections (demo_sequence ! i) \<noteq> [] \<longrightarrow>
           (\<exists>d \<in> set (bat_detections (demo_sequence ! i)).
              ts ! i = Some \<lparr>position = position d, angle = angle d\<rparr> \<and>
              (\<forall>d' \<in> set (bat_detections (demo_sequence ! i)).
                 confidence d' \<le> confidence d)))"
    by blast
  have l: "length demo_sequence = 2" by (simp add: demo_sequence_def)
  from al [rule_format, of 1] l have "ts ! 1 = None" by (simp add: demo_sequence_def)
  moreover from al [rule_format, of 0] l
  have "ts ! 0 = Some \<lparr>position = [2, 3, 4, 5], angle = 30\<rparr>"
    by (auto simp: demo_sequence_def)
  ultimately show ?thesis using ts l by (simp add: demo_sequence_def)
qed

section \<open>The order of the frames\<close>

lemma predictions_append: "predictions (xs @ ys) = predictions xs @ predictions ys"
  by (induction xs rule: predictions.induct) auto

lemma predict_calls_append: "predict_calls (xs @ ys) = predict_calls xs @ predict_calls ys"
  by (induction xs rule: predict_calls.induct) auto

lemma pbind_Inr:
  "pbind m f s = (Inr b, s'') \<Longrightarrow> \<exists>a s'. m s = (Inr a, s') \<and> f a s' = (Inr b, s'')"
  by (auto simp: pbind_def split: prod.splits sum.splits)

lemma getattr_Inr: "getattr slot n s = (Inr v, s') \<Longrightarrow> s' = s"
  by (auto simp: getattr_def split: option.splits)

lemma receiver_Inr: "receiver v m s = (Inr r, s') \<Longrightarrow> s' = s"
  by (auto simp: receiver_def ret_def raise_def split: pyobj.splits)

lemma ext_call_Inr:
  "ext_call f ev s = (Inr a, s') \<Longrightarrow> s' = s\<lparr>trace := trace s @ [ev (Inr a)]\<rparr>"
  by (auto simp: ext_call_def Let_def)

lemma logger_call_Inr:
  "logger_call E msg s = (Inr u, s') \<Longrightarrow> s' = s\<lparr>trace := trace s @ [Logged msg]\<rparr>"
  unfolding logger_call_def
  by (auto dest!: pbind_Inr getattr_Inr receiver_Inr ext_call_Inr)

lemma lift_Inr: "lift r s = (Inr a, s') \<Longrightarrow> r = Inr a \<and> s' = s"
  by (simp add: lift_def)

lemma context_step_Inr:
  assumes "(if idx = 0 then
              pbind (logger_call E msg) (\<lambda>_.
              pbind (getattr context_model ''context_model'') (\<lambda>cm.
              pbind (receiver cm ''inference'') (\<lambda>c.
              pbind (ext_call (\<lambda>h. inference E h c frame task) (\<lambda>_. Inference frame task)) (\<lambda>g.
              ret (Some g)))))
            else ret game_context) s = (Inr gc', s')"
  shows "\<exists>mid. trace s' = trace s @ mid \<and> predictions mid = [] \<and> predict_calls mid = []"
proof (cases "idx = 0")
  case True
  with assms show ?thesis
    by (auto dest!: pbind_Inr getattr_Inr receiver_Inr ext_call_Inr logger_call_Inr
             simp: ret_def)
next
  case False
  with assms show ?thesis by (simp add: ret_def)
qed

lemma frame_loop_step:
  assumes "frame_loop E idx (frame # rest) sd gc s = (Inr res, s')"
  shows "\<exists>p fd gc' s1 mid. trace s1 = trace s @ mid \<and> predictions mid = [(frame, p)] \<and>
           predict_calls mid = [frame] \<and>
           (\<exists>h r. predict E h r frame (3 / 10) False = Inr p) \<and>
           process_frame_results E p = Inr fd \<and>
           frame_loop E (idx + 1) rest (sd @ [fd]) gc' s1 = (Inr res, s')"
proof -
  from assms obtain bm s1 r s2 p s3 gc' s4 fd s5 where
    a1: "getattr bat_model ''bat_model'' s = (Inr bm, s1)" and
    a2: "receiver bm ''predict'' s1 = (Inr r, s2)" and
    a3: "ext_call (\<lambda>h. predict E h r frame (3 / 10) False) (Predict frame) s2 = (Inr p, s3)" and
    a4: "(if idx = 0 then
              pbind (logger_call E ''Analyzing game context'') (\<lambda>_.
              pbind (getattr context_model ''context_model'') (\<lambda>cm.
              pbind (receiver cm ''inference'') (\<lambda>c.
              pbind (ext_call (\<lambda>h. inference E h c frame ''<BATTING_CONTEXT>'')
                       (\<lambda>_. Inference frame ''<BATTING_CONTEXT>'')) (\<lambda>g.
              ret (Some g)))))
            else ret gc) s3 = (Inr gc', s4)" and
    a5: "lift (process_frame_results E p) s4 = (Inr fd, s5)" and
    r5: "frame_loop E (Suc idx) rest (sd @ [fd]) gc' s5 = (Inr res, s')"
    by (auto dest!: pbind_Inr)
  have s2: "s2 = s" using getattr_Inr [OF a1] receiver_Inr [OF a2] by simp
  have s3: "trace s3 = trace s @ [Predict frame (Inr p)]"
    using ext_call_Inr [OF a3] s2 by simp
  have pr: "\<exists>h r. predict E h r frame (3 / 10) False = Inr p"
    using a3 by (auto simp: ext_call_def Let_def)
  from context_step_Inr [OF a4] obtain mid where
    mid: "trace s4 = trace s3 @ mid" "predictions mid = []" "predict_calls mid = []" by blast
  have s5: "process_frame_results E p = Inr fd" "s5 = s4"
    using lift_Inr [OF a5] by simp_all
  have "trace s4 = trace s @ (Predict frame (Inr p) # mid)"
    using mid(1) s3 by simp
  moreover have "predictions (Predict frame (Inr p) # mid) = [(frame, p)]"
    using mid(2) by simp
  moreover have "predict_calls (Predict frame (Inr p) # mid) = [frame]"
    using mid(3) by simp
  moreover have "frame_loop E (idx + 1) rest (sd @ [fd]) gc' s4 = (Inr res, s')"
    using r5 s5(2) by simp
  ultimately show ?thesis using s5(1) pr by blast
qed

lemma frame_loop_inv:
  "frame_loop E idx frames sd0 gc0 s = (Inr (sd, gc), s') \<Longrightarrow>
     \<exists>new. trace s' = trace s @ new \<and> map fst (predictions new) = frames \<and>
       predict_calls new = frames \<and>
       (\<forall>fp \<in> set (predictions new).
          \<exists>h r. predict E h r (fst fp) (3 / 10) False = Inr (snd fp)) \<and>
       (\<exists>ds. sd = sd0 @ ds \<and>
          map (\<lambda>fp. process_frame_results E (snd fp)) (predictions new) = map Inr ds)"
proof (induction frames arbitrary: idx sd0 gc0 s)
  case Nil
  then show ?case by (simp add: ret_def)
next
  case (Cons frame rest)
  from frame_loop_step [OF Cons.prems] obtain p fd gc' s1 mid where
    st: "trace s1 = trace s @ mid" "predictions mid = [(frame, p)]"
      "\<exists>h r. predict E h r frame (3 / 10) False = Inr p"
      "process_frame_results E p = Inr fd"
      "frame_loop E (idx + 1) rest (sd0 @ [fd]) gc' s1 = (Inr (sd, gc), s')"
      "predict_calls mid = [frame]"
    by blast
  from Cons.IH [OF st(5)] obtain new ds where
    ih: "trace s' = trace s1 @ new" "map fst (predictions new) = rest"
      "\<forall>fp \<in> set (predictions new).
          \<exists>h r. predict E h r (fst fp) (3 / 10) False = Inr (snd fp)"
      "sd = (sd0 @ [fd]) @ ds"
      "map (\<lambda>fp. process_frame_results E (snd fp)) (predictions new) = map Inr ds"
      "predict_calls new = rest"
    by blast
  show ?case
    apply (rule exI [of _ "mid @ new"])
    apply (intro conjI)
        apply (simp add: ih(1) st(1))
       apply (simp add: predictions_append st(2) ih(2))
      apply (simp add: predict_calls_append st(6) ih(6))
     apply (simp add: predictions_append st(2) st(3) ih(3))
    apply (rule exI [of _ "fd # ds"])
    apply (simp add: predictions_append st(2) st(4) ih(4) ih(5))
    done
qed

text \<open>When the frame loop completes, \<open>predict\<close> has been called once for each frame of
  the list, in the order of the list, and the i-th entry of \<open>sequence_data\<close> is
  \<open>process_frame_results\<close> of the prediction returned for the i-th frame.\<close>

lemma frame_loop_preserves_order:
  assumes "frame_loop E 0 frames [] None s = (Inr (sequence_data, game_context), s')"
  shows "\<exists>new. trace s' = trace s @ new \<and>
           length sequence_data = length frames \<and>
           length (predictions new) = length frames \<and>
           predict_calls new = frames \<and>
           (\<forall>i < length frames.
              fst (predictions new ! i) = frames ! i \<and>
              (\<exists>h r. predict E h r (frames ! i) (3 / 10) False = Inr (snd (predictions new ! i))) \<and>
              process_frame_results E (snd (predictions new ! i)) = Inr (sequence_data ! i))"
proof -
  from frame_loop_inv [OF assms] obtain new where
    n: "trace s' = trace s @ new" "map fst (predictions new) = frames"
      "\<forall>fp \<in> set (predictions new).
          \<exists>h r. predict E h r (fst fp) (3 / 10) False = Inr (snd fp)"
      "map (\<lambda>fp. process_frame_results E (snd fp)) (predictions new) = map Inr sequence_data"
      "predict_calls new = frames"
    by auto
  have len: "length (predictions new) = length frames"
    using n(2) by (metis length_map)
  have len2: "length sequence_data = length frames"
    using n(4) len by (metis length_map)
  have "\<forall>i < length frames. fst (predictions new ! i) = frames ! i \<and>
          (\<exists>h r. predict E h r (frames ! i) (3 / 10) False = Inr (snd (predictions new ! i))) \<and>
          process_frame_results E (snd (predictions new ! i)) = Inr (sequence_data ! i)"
  proof (intro allI impI)
    fix i assume i: "i < length frames"
    have "map fst (predictions new) ! i = frames ! i" using n(2) by simp
    then have a: "fst (predictions new ! i) = frames ! i" using i len by simp
    have "predictions new ! i \<in> set (predictions new)" using i len by simp
    then have c: "\<exists>h r. predict E h r (frames ! i) (3 / 10) False = Inr (snd (predictions new ! i))"
      using n(3) a by metis
    have "map (\<lambda>fp. process_frame_results E (snd fp)) (predictions new) ! i
            = map Inr sequence_data ! i" using n(4) by simp
    then have b: "process_frame_results E (snd (predictions new ! i)) = Inr (sequence_data ! i)"
      using i len len2 by simp
    from a b c show "fst (predictions new ! i) = frames ! i \<and>
          (\<exists>h r. predict E h r (frames ! i) (3 / 10) False = Inr (snd (predictions new ! i))) \<and>
          process_frame_results E (snd (predictions new ! i)) = Inr (sequence_data ! i)" by simp
  qed
  with n(1) n(5) len len2 show ?thesis by blast
qed

lemma demo_frame_0:
  "process_frame_results demo_env (Prediction 0 demo_boxes) =
     Inr \<lparr>timestamp = 0,
          bat_detections = [\<lparr>position = [0, 0, 1, 1], angle = 45, confidence = 1 / 2\<rparr>,
                            \<lparr>position = [2, 3, 4, 5], angle = 45, confidence = 9 / 10\<rparr>],
          bat_angle = None\<rparr>"
  by (simp add: process_frame_results_def demo_boxes_def ebind_def index0_def
      calculate_bat_angle_def demo_env_def arctan_one)

lemma demo_frame_1:
  "process_frame_results demo_env (Prediction 1 []) =
     Inr \<lparr>timestamp = 1, bat_detections = [], bat_angle = None\<rparr>"
  by (simp add: process_frame_results_def ebind_def)

section \<open>The pipeline object is only read\<close>

lemma keeps_pbind:
  assumes "keeps_object m" "\<And>a. keeps_object (f a)"
  shows "keeps_object (pbind m f)"
  unfolding keeps_object_def
proof
  fix s
  obtain r s' where ms: "m s = (r, s')" by (cases "m s")
  have s': "pipeline_obj s' = pipeline_obj s"
    using assms(1) ms unfolding keeps_object_def by (metis snd_conv)
  show "pipeline_obj (snd (pbind m f s)) = pipeline_obj s"
  proof (cases r)
    case (Inl e)
    then show ?thesis using ms s' by (simp add: pbind_def)
  next
    case (Inr a)
    have "pipeline_obj (snd (f a s')) = pipeline_obj s'"
      using assms(2) [of a] unfolding keeps_object_def by simp
    then show ?thesis using Inr ms s' by (simp add: pbind_def)
  qed
qed

lemma keeps_ret: "keeps_object (ret a)"
  by (simp add: keeps_object_def ret_def)

lemma keeps_raise: "keeps_object (raise e)"
  by (simp add: keeps_object_def raise_def)

lemma keeps_lift: "keeps_object (lift r)"
  by (simp add: keeps_object_def lift_def)

lemma keeps_ext_call: "keeps_object (ext_call f ev)"
  by (simp add: keeps_object_def ext_call_def Let_def)

lemma keeps_print: "keeps_object (print line)"
  by (simp add: keeps_object_def print_def)

lemma keeps_getattr: "keeps_object (getattr slot n)"
  by (simp add: keeps_object_def getattr_def split: option.splits)

lemma keeps_receiver: "keeps_object (receiver v m)"
  by (simp add: receiver_def keeps_ret keeps_raise split: pyobj.splits)

lemma keeps_method_name: "keeps_object (method_name n)"
  by (simp add: method_name_def keeps_ret keeps_raise)

lemma keeps_try:
  assumes "keeps_object body" "\<And>e. keeps_object (handler e)"
  shows "keeps_object (try_except_Exception body handler)"
  unfolding keeps_object_def
proof
  fix s
  obtain r s' where ms: "body s = (r, s')" by (cases "body s")
  have s': "pipeline_obj s' = pipeline_obj s"
    using assms(1) ms unfolding keeps_object_def by (metis snd_conv)
  show "pipeline_obj (snd (try_except_Exception body handler s)) = pipeline_obj s"
  proof (cases r)
    case (Inr a)
    then show ?thesis using ms s' by (simp add: try_except_Exception_def)
  next
    case (Inl e)
    have "pipeline_obj (snd (handler e s')) = pipeline_obj s'"
      using assms(2) [of e] unfolding keeps_object_def by simp
    then show ?thesis using Inl ms s' by (simp add: try_except_Exception_def)
  qed
qed

lemmas keeps_intros = keeps_pbind keeps_ret keeps_raise keeps_lift keeps_ext_call keeps_print
  keeps_getattr keeps_receiver keeps_method_name

lemma keeps_logger_call: "keeps_object (logger_call E msg)"
  unfolding logger_call_def by (intro keeps_intros)

lemma keeps_extract: "keeps_object (extract_clean_trajectories E sequence_data)"
  unfolding extract_clean_trajectories_def by (intro keeps_intros)

lemma keeps_analyze_sequence: "keeps_object (analyze_sequence E sequence_data game_context)"
  unfolding analyze_sequence_def by (intro keeps_intros keeps_extract)

lemma keeps_frame_loop: "keeps_object (frame_loop E idx frames sequence_data game_context)"
proof (induction frames arbitrary: idx sequence_data game_context)
  case Nil
  show ?case by (simp add: keeps_ret)
next
  case (Cons frame rest)
  have ctx: "keeps_object (if idx = 0 then
              pbind (logger_call E ''Analyzing game context'') (\<lambda>_.
              pbind (getattr context_model ''context_model'') (\<lambda>cm.
              pbind (receiver cm ''inference'') (\<lambda>c.
              pbind (ext_call (\<lambda>h. inference E h c frame ''<BATTING_CONTEXT>'')
                       (\<lambda>_. Inference frame ''<BATTING_CONTEXT>'')) (\<lambda>g.
              ret (Some g)))))
            else ret game_context)"
    by (cases "idx = 0") (auto intro!: keeps_intros keeps_logger_call)
  show ?case
    unfolding frame_loop.simps
    by (intro keeps_pbind keeps_getattr keeps_receiver keeps_ext_call ctx keeps_lift Cons.IH)
qed

lemma keeps_process_sequence: "keeps_object (process_sequence E video_path)"
  unfolding process_sequence_def
  apply (intro keeps_pbind keeps_getattr keeps_receiver keeps_ext_call keeps_logger_call
      keeps_frame_loop)
  apply (simp add: split_def keeps_analyze_sequence)
  done

lemma keeps_try_part: "keeps_object (analyze_baseball_swing_try E video_path)"
  unfolding analyze_baseball_swing_try_def
  by (intro keeps_try keeps_intros keeps_process_sequence)

text \<open>
  C8. \<open>process_sequence\<close> and the methods it calls never assign an attribute of the
  pipeline object: whatever the libraries answer and however the call ends, the object
  after the call is the object before it, so \<open>load_tools\<close>, \<open>data_tools\<close>, \<open>bat_model\<close>
  and \<open>context_model\<close> keep their values. \<open>process_frame_results\<close>,
  \<open>calculate_bat_angle\<close> and \<open>calculate_swing_metrics\<close> do not take the state at all.
\<close>

theorem process_sequence_keeps_attributes:
  "pipeline_obj (snd (process_sequence E video_path s)) = pipeline_obj s \<and>
   pipeline_obj (snd (frame_loop E idx frames sequence_data game_context s)) = pipeline_obj s \<and>
   pipeline_obj (snd (analyze_sequence E sequence_data game_context s)) = pipeline_obj s \<and>
   pipeline_obj (snd (extract_clean_trajectories E sequence_data s)) = pipeline_obj s"
  using keeps_process_sequence [of E video_path]
    keeps_frame_loop [of E idx frames sequence_data game_context]
    keeps_analyze_sequence [of E sequence_data game_context]
    keeps_extract [of E sequence_data]
  unfolding keeps_object_def by blast

section \<open>Loading the model: names the module does not bind\<close>

lemma py_range_3: "py_range 3 = [0, 1, 2]"
  by (simp add: py_range_def eval_nat_numeral)

lemma py_range_pos: "0 < n \<Longrightarrow> py_range n = 0 # map int [1..<nat n]"
  by (simp add: py_range_def upt_conv_Cons)

lemma py_range_nonpos: "n \<le> 0 \<Longrightarrow> py_range n = []"
  by (simp add: py_range_def)

lemma str_int_1: "str_int 1 = ''1''"
  by (simp add: str_int_def str_nat.simps)

lemma global_name_YOLO: "global_name ''YOLO'' = raise (name_error ''YOLO'')"
  by (simp add: global_name_def module_names_def builtin_names_def)

lemma global_name_time: "global_name ''time'' = raise (name_error ''time'')"
  by (simp add: global_name_def module_names_def builtin_names_def)

lemma method_name_interpolate:
  "method_name ''interpolate_missing_trajectories'' =
     raise (attribute_error ''BatTrackingPipeline'' ''interpolate_missing_trajectories'')"
  by (simp add: method_name_def class_attributes_def)

lemma always_raises_raise: "always_raises (raise e)"
  by (simp add: always_raises_def raise_def)

lemma always_raises_pbind_left: "always_raises m \<Longrightarrow> always_raises (pbind m f)"
  unfolding always_raises_def pbind_def
proof
  fix s
  assume a: "\<forall>s. \<exists>e s'. m s = (Inl e, s')"
  then obtain e s' where "m s = (Inl e, s')" by blast
  then show "\<exists>e s'. (case m s of (Inl e, s') \<Rightarrow> (Inl e, s') | (Inr a, s') \<Rightarrow> f a s') = (Inl e, s')"
    by simp
qed

lemma always_raises_pbind_right:
  assumes "\<And>a. always_raises (f a)"
  shows "always_raises (pbind m f)"
  unfolding always_raises_def
proof
  fix s
  obtain r s1 where ms: "m s = (r, s1)" by (cases "m s")
  show "\<exists>e s'. pbind m f s = (Inl e, s')"
  proof (cases r)
    case (Inl e)
    then show ?thesis using ms by (simp add: pbind_def)
  next
    case (Inr a)
    from assms [of a] obtain e s' where "f a s1 = (Inl e, s')"
      unfolding always_raises_def by blast
    then show ?thesis using ms Inr by (simp add: pbind_def)
  qed
qed

lemma load_attempt_raises: "always_raises (load_attempt E model_name)"
  unfolding load_attempt_def global_name_YOLO
  by (intro always_raises_pbind_right always_raises_pbind_left always_raises_raise)

lemma handler_raises:
  "always_raises (if attempt = max_attempts - 1
       then raise (Exc PlainException
              (''Failed to load model after '' @ str_int max_attempts @ '' attempts''))
       else
         pbind (print (''Attempt '' @ str_int (attempt + 1) @ '' failed, retrying...'')) (\<lambda>_.
         pbind (global_name ''time'') (\<lambda>_.
         pbind (ext_call (\<lambda>h. time_sleep E h 1) (\<lambda>_. Slept 1)) (\<lambda>_.
         retry_loop E model_name max_attempts rest))))"
proof (cases "attempt = max_attempts - 1")
  case True
  then show ?thesis by (simp add: always_raises_raise)
next
  case False
  have "always_raises
         (pbind (print (''Attempt '' @ str_int (attempt + 1) @ '' failed, retrying...'')) (\<lambda>_.
          pbind (raise (name_error ''time'')) (\<lambda>_.
          pbind (ext_call (\<lambda>h. time_sleep E h 1) (\<lambda>_. Slept 1)) (\<lambda>_.
          retry_loop E model_name max_attempts rest))))"
    by (rule always_raises_pbind_right, rule always_raises_pbind_left,
        rule always_raises_raise)
  with False show ?thesis by (simp add: global_name_time)
qed

lemma always_raises_try:
  assumes "always_raises body" "\<And>e. always_raises (handler e)"
  shows "always_raises (try_except_Exception body handler)"
  unfolding always_raises_def
proof
  fix s
  from assms(1) obtain e s1 where b: "body s = (Inl e, s1)"
    unfolding always_raises_def by blast
  from assms(2) [of e] obtain e' s2 where h: "handler e s1 = (Inl e', s2)"
    unfolding always_raises_def by blast
  show "\<exists>e s'. try_except_Exception body handler s = (Inl e, s')"
    using b h by (simp add: try_except_Exception_def)
qed

lemma retry_loop_raises: "always_raises (retry_loop E model_name max_attempts (attempt # rest))"
  unfolding retry_loop.simps
  by (intro always_raises_try load_attempt_raises handler_raises)

lemma load_model_with_retry_cases:
  "(\<exists>e s'. load_model_with_retry E model_name max_attempts s = (Inl e, s')) \<or>
   load_model_with_retry E model_name max_attempts s = (Inr PyNone, s)"
proof (cases "py_range max_attempts")
  case Nil
  then show ?thesis by (simp add: load_model_with_retry_def ret_def)
next
  case (Cons a rest)
  then show ?thesis
    using retry_loop_raises [of E model_name max_attempts a rest]
    by (simp add: load_model_with_retry_def always_raises_def)
qed

lemma load_attempt_first:
  assumes "load_tools (pipeline_obj s) = Some (Obj lt)"
    and "load_model E (trace s) lt model_name = r"
  shows "load_attempt E model_name s =
     (Inl (case r of Inl e \<Rightarrow> e | Inr p \<Rightarrow> name_error ''YOLO''),
      s\<lparr>trace := trace s @ [Load_model model_name r]\<rparr>)"
  using assms unfolding load_attempt_def global_name_YOLO
  by (cases r) (simp_all add: pbind_def getattr_def receiver_def ret_def raise_def ext_call_def
      Let_def)

lemma caught: "isinstance_Exception (name_error n)"
  by (simp add: isinstance_Exception_def name_error_def)

lemma load_model_with_retry_not_last:
  assumes "load_tools (pipeline_obj s) = Some (Obj lt)"
    and "load_model E (trace s) lt model_name = r"
    and "case r of Inl e \<Rightarrow> isinstance_Exception e | Inr p \<Rightarrow> True"
    and "2 \<le> max_attempts"
  shows "load_model_with_retry E model_name max_attempts s =
     (Inl (name_error ''time''),
      s\<lparr>trace := trace s @ [Load_model model_name r, Printed ''Attempt 1 failed, retrying...'']\<rparr>)"
proof -
  have c: "isinstance_Exception (case r of Inl e \<Rightarrow> e | Inr p \<Rightarrow> name_error ''YOLO'')"
    using assms(3) by (cases r) (simp_all add: caught)
  have r: "py_range max_attempts = 0 # map int [1..<nat max_attempts]"
    using assms(4) by (simp add: py_range_pos)
  show ?thesis
    using assms(4) c
    by (simp add: load_model_with_retry_def r try_except_Exception_def
        load_attempt_first [OF assms(1) assms(2)] global_name_time pbind_def print_def raise_def
        str_int_1)
qed

lemma load_model_with_retry_last:
  assumes "load_tools (pipeline_obj s) = Some (Obj lt)"
    and "load_model E (trace s) lt model_name = r"
    and "case r of Inl e \<Rightarrow> isinstance_Exception e | Inr p \<Rightarrow> True"
  shows "load_model_with_retry E model_name 1 s =
     (Inl (Exc PlainException ''Failed to load model after 1 attempts''),
      s\<lparr>trace := trace s @ [Load_model model_name r]\<rparr>)"
proof -
  have c: "isinstance_Exception (case r of Inl e \<Rightarrow> e | Inr p \<Rightarrow> name_error ''YOLO'')"
    using assms(3) by (cases r) (simp_all add: caught)
  have r: "py_range 1 = [0]" by (simp add: py_range_def)
  show ?thesis
    using c
    by (simp add: load_model_with_retry_def r try_except_Exception_def
        load_attempt_first [OF assms(1) assms(2)] raise_def str_int_1)
qed

text \<open>
  C9, as the code has it. \<open>load_model_with_retry\<close> never returns a model. When
  \<open>load_tools.load_model\<close> succeeds, \<open>YOLO(model_path)\<close> raises NameError inside the
  \<open>try\<close>, and \<open>except Exception\<close> catches it as it catches a failed load. After that one
  attempt the call raises NameError on \<open>time\<close> when the attempt is not the last
  (\<open>max_attempts\<close> at least 2), and the generic Exception when it is the last
  (\<open>max_attempts = 1\<close>). With \<open>max_attempts\<close> at most 0 it returns \<open>None\<close>.
\<close>

theorem load_model_with_retry_never_returns_model:
  "fst (load_model_with_retry E model_name max_attempts s) \<noteq> Inr (Obj m) \<and>
   (max_attempts \<le> 0 \<longrightarrow>
      load_model_with_retry E model_name max_attempts s = (Inr PyNone, s)) \<and>
   (load_tools (pipeline_obj s) = Some (Obj lt) \<longrightarrow>
    load_model E (trace s) lt model_name = r \<longrightarrow>
    (case r of Inl e \<Rightarrow> isinstance_Exception e | Inr p \<Rightarrow> True) \<longrightarrow>
      load_attempt E model_name s =
        (Inl (case r of Inl e \<Rightarrow> e | Inr p \<Rightarrow> name_error ''YOLO''),
         s\<lparr>trace := trace s @ [Load_model model_name r]\<rparr>) \<and>
      (2 \<le> max_attempts \<longrightarrow>
         load_model_with_retry E model_name max_attempts s =
           (Inl (name_error ''time''),
            s\<lparr>trace := trace s @ [Load_model model_name r,
                                   Printed ''Attempt 1 failed, retrying...'']\<rparr>)) \<and>
      (max_attempts = 1 \<longrightarrow>
         load_model_with_retry E model_name max_attempts s =
           (Inl (Exc PlainException ''Failed to load model after 1 attempts''),
            s\<lparr>trace := trace s @ [Load_model model_name r]\<rparr>)))"
proof (intro conjI impI)
  show "fst (load_model_with_retry E model_name max_attempts s) \<noteq> Inr (Obj m)"
    using load_model_with_retry_cases [of E model_name max_attempts s] by auto
next
  assume "max_attempts \<le> 0"
  then show "load_model_with_retry E model_name max_attempts s = (Inr PyNone, s)"
    by (simp add: load_model_with_retry_def py_range_nonpos ret_def)
next
  assume a: "load_tools (pipeline_obj s) = Some (Obj lt)"
    "load_model E (trace s) lt model_name = r"
  then show "load_attempt E model_name s =
        (Inl (case r of Inl e \<Rightarrow> e | Inr p \<Rightarrow> name_error ''YOLO''),
         s\<lparr>trace := trace s @ [Load_model model_name r]\<rparr>)"
    by (rule load_attempt_first)
next
  assume "load_tools (pipeline_obj s) = Some (Obj lt)"
    "load_model E (trace s) lt model_name = r"
    "case r of Inl e \<Rightarrow> isinstance_Exception e | Inr p \<Rightarrow> True"
    "2 \<le> max_attempts"
  then show "load_model_with_retry E model_name max_attempts s =
           (Inl (name_error ''time''),
            s\<lparr>trace := trace s @ [Load_model model_name r,
                                   Printed ''Attempt 1 failed, retrying...'']\<rparr>)"
    by (rule load_model_with_retry_not_last)
next
  assume "load_tools (pipeline_obj s) = Some (Obj lt)"
    "load_model E (trace s) lt model_name = r"
    "case r of Inl e \<Rightarrow> isinstance_Exception e | Inr p \<Rightarrow> True"
    "max_attempts = 1"
  then show "load_model_with_retry E model_name max_attempts s =
           (Inl (Exc PlainException ''Failed to load model after 1 attempts''),
            s\<lparr>trace := trace s @ [Load_model model_name r]\<rparr>)"
    using load_model_with_retry_last by simp
qed

lemma py_range_1: "py_range 1 = [0]"
  by (simp add: py_range_def)

text \<open>
  C1 says that a failed load is tried again after a second, up to \<open>max_attempts\<close> times,
  and that the generic Exception ends the last attempt. With three attempts allowed and a
  model that cannot be loaded, the code makes one attempt, prints that it retries, and
  raises NameError on \<open>time\<close>: there is no sleep, no second attempt and no generic Exception.
\<close>

theorem load_model_with_retry_gives_up_after_one_failure:
  "load_model_with_retry failing_env ''bat_tracking'' 3 ready_state =
     (Inl (name_error ''time''),
      ready_state\<lparr>trace :=
        [Load_model ''bat_tracking'' (Inl (Exc LibraryError ''model not found'')),
         Printed ''Attempt 1 failed, retrying...'']\<rparr>)"
  by (simp add: load_model_with_retry_def py_range_3 load_attempt_def prog_defs
      failing_env_def demo_env_def ready_state_def str_int_1)

text \<open>
  C9 says that a successful \<open>load_model\<close> makes the call raise NameError on \<open>YOLO\<close>. The
  load succeeds here, and the call raises NameError on \<open>time\<close> with three attempts and the
  generic Exception with one: never the NameError on \<open>YOLO\<close>.
\<close>

theorem load_model_with_retry_YOLO_error_is_caught:
  "load_model demo_env (trace ready_state) 1 ''bat_tracking'' = Inr ''bat_tracking.pt'' \<and>
   fst (load_model_with_retry demo_env ''bat_tracking'' 3 ready_state) = Inl (name_error ''time'') \<and>
   fst (load_model_with_retry demo_env ''bat_tracking'' 3 ready_state) \<noteq> Inl (name_error ''YOLO'') \<and>
   fst (load_model_with_retry demo_env ''bat_tracking'' 1 ready_state) \<noteq> Inl (name_error ''YOLO'')"
  by (simp add: load_model_with_retry_def py_range_3 py_range_1 load_attempt_def prog_defs
      demo_env_def ready_state_def str_int_1)

theorem load_model_with_retry_never_returns_model_witness:
  "load_tools (pipeline_obj ready_state) = Some (Obj 1) \<and>
   load_model demo_env (trace ready_state) 1 ''bat_tracking'' = Inr ''bat_tracking.pt'' \<and>
   (2::int) \<le> 3 \<and>
   fst (load_model_with_retry demo_env ''bat_tracking'' 3 ready_state) \<noteq> Inr (Obj 3) \<and>
   load_attempt demo_env ''bat_tracking'' ready_state =
     (Inl (name_error ''YOLO''),
      ready_state\<lparr>trace := [Load_model ''bat_tracking'' (Inr ''bat_tracking.pt'')]\<rparr>) \<and>
   load_model_with_retry demo_env ''bat_tracking'' 3 ready_state =
     (Inl (name_error ''time''),
      ready_state\<lparr>trace := [Load_model ''bat_tracking'' (Inr ''bat_tracking.pt''),
                            Printed ''Attempt 1 failed, retrying...'']\<rparr>)"
proof -
  have h1: "load_tools (pipeline_obj ready_state) = Some (Obj 1)"
    by (simp add: ready_state_def)
  have h2: "load_model demo_env (trace ready_state) 1 ''bat_tracking'' = Inr ''bat_tracking.pt''"
    by (simp add: demo_env_def)
  have t: "trace ready_state = []" by (simp add: ready_state_def)
  show ?thesis
    using load_model_with_retry_never_returns_model
      [of demo_env "''bat_tracking''" 3 ready_state 3 1 "Inr ''bat_tracking.pt''"] h1 h2 t
    by simp
qed

section \<open>The missing interpolation step\<close>

lemma extract_clean_trajectories_raises:
  "extract_clean_trajectories E sequence_data s =
     (Inl (attribute_error ''BatTrackingPipeline'' ''interpolate_missing_trajectories''), s)"
  by (simp add: extract_clean_trajectories_def trajectories_loop_map method_name_interpolate
      pbind_def lift_def raise_def)

text \<open>
  C5 says that \<open>analyze_sequence\<close> returns a dictionary of five keys. For every sequence
  and every game context it raises AttributeError instead, at the call of
  \<open>interpolate_missing_trajectories\<close>, and builds no dictionary.
\<close>

theorem analyze_sequence_raises:
  "analyze_sequence E sequence_data game_context s =
     (Inl (attribute_error ''BatTrackingPipeline'' ''interpolate_missing_trajectories''), s)"
  by (simp add: analyze_sequence_def extract_clean_trajectories_raises pbind_def)

lemma analyze_sequence_always_raises: "always_raises (analyze_sequence E sd gc)"
  by (simp add: always_raises_def analyze_sequence_raises)

lemma process_sequence_always_raises: "always_raises (process_sequence E video_path)"
  unfolding process_sequence_def
  apply (intro always_raises_pbind_right)
  apply (simp add: split_def analyze_sequence_always_raises)
  done

lemma load_model_with_retry_3_raises: "always_raises (load_model_with_retry E model_name 3)"
  using retry_loop_raises [of E model_name 3 0 "[1, 2]"]
  by (simp add: load_model_with_retry_def py_range_3)

lemma init_always_raises: "always_raises (BatTrackingPipeline_init E)"
  unfolding BatTrackingPipeline_init_def
  by (rule always_raises_pbind_right, rule always_raises_pbind_right,
      rule always_raises_pbind_right, rule always_raises_pbind_right,
      rule always_raises_pbind_left, rule load_model_with_retry_3_raises)

lemma analyze_baseball_swing_always_raises: "always_raises (analyze_baseball_swing E video_path)"
  unfolding analyze_baseball_swing_def
  by (rule always_raises_pbind_right, rule always_raises_pbind_left, rule init_always_raises)

text \<open>
  C3 says that \<open>analyze_baseball_swing\<close> returns \<open>None\<close> for every video. The constructor
  runs before the \<open>try\<close> statement, and with libraries that all succeed it raises
  NameError on \<open>time\<close>, which nothing catches.
\<close>

theorem analyze_baseball_swing_raises_in_constructor:
  "fst (analyze_baseball_swing demo_env ''swing_sequence.mp4'' fresh_state) = Inl (name_error ''time'') \<and>
   fst (analyze_baseball_swing demo_env ''swing_sequence.mp4'' fresh_state) \<noteq> Inr None"
  by (simp add: analyze_baseball_swing_def BatTrackingPipeline_init_def
      load_model_with_retry_def py_range_3 load_attempt_def prog_defs
      demo_env_def fresh_state_def new_pipeline_def str_int_1)

text \<open>
  C3, as the code has it. For every list of frame data \<open>extract_clean_trajectories\<close>
  raises AttributeError on \<open>interpolate_missing_trajectories\<close>; \<open>process_sequence\<close> never
  returns a result; and \<open>analyze_baseball_swing\<close> never returns either: for every video
  it ends in an exception.
\<close>

theorem extract_clean_trajectories_never_returns:
  "fst (extract_clean_trajectories E sequence_data s) =
     Inl (attribute_error ''BatTrackingPipeline'' ''interpolate_missing_trajectories'') \<and>
   (\<exists>e. fst (process_sequence E video_path s) = Inl e) \<and>
   (\<exists>e. fst (analyze_baseball_swing E video_path s) = Inl e)"
proof (intro conjI)
  show "fst (extract_clean_trajectories E sequence_data s) =
     Inl (attribute_error ''BatTrackingPipeline'' ''interpolate_missing_trajectories'')"
    by (simp add: extract_clean_trajectories_raises)
  from process_sequence_always_raises [of E video_path]
  obtain e s' where "process_sequence E video_path s = (Inl e, s')"
    unfolding always_raises_def by blast
  then show "\<exists>e. fst (process_sequence E video_path s) = Inl e" by simp
  from analyze_baseball_swing_always_raises [of E video_path]
  obtain e s' where "analyze_baseball_swing E video_path s = (Inl e, s')"
    unfolding always_raises_def by blast
  then show "\<exists>e. fst (analyze_baseball_swing E video_path s) = Inl e" by simp
qed

section \<open>The handler of the entry point\<close>















section \<open>The context model\<close>

text \<open>However \<open>process_sequence\<close> ends, it has asked the context model at most once, and
  then on the first extracted frame.\<close>

lemma inferences_append: "inferences (xs @ ys) = inferences xs @ inferences ys"
  by (induction xs rule: inferences.induct) auto

lemma quiet_ret: "quiet (ret a)"
  by (simp add: quiet_def ret_def)

lemma quiet_raise: "quiet (raise e)"
  by (simp add: quiet_def raise_def)

lemma quiet_lift: "quiet (lift r)"
  by (simp add: quiet_def lift_def)

lemma quiet_getattr: "quiet (getattr slot n)"
  by (simp add: quiet_def getattr_def split: option.splits)

lemma quiet_receiver: "quiet (receiver v m)"
  by (simp add: receiver_def quiet_ret quiet_raise split: pyobj.splits)

lemma quiet_method_name: "quiet (method_name n)"
  by (simp add: method_name_def quiet_ret quiet_raise)

lemma quiet_ext_call: "(\<And>r. inferences [ev r] = []) \<Longrightarrow> quiet (ext_call f ev)"
  by (simp add: quiet_def ext_call_def Let_def)

lemma quiet_imp: "quiet m \<Longrightarrow> infers_at_most f m"
  unfolding quiet_def infers_at_most_def by blast

lemma compose_traces:
  assumes m: "\<exists>n1. trace (snd (m s)) = trace s @ n1 \<and> P n1"
    and g: "\<And>a s1. \<exists>n2. trace (snd (g a s1)) = trace s1 @ n2 \<and> Q n2"
    and e: "\<And>n1. P n1 \<Longrightarrow> R n1"
    and c: "\<And>n1 n2. P n1 \<Longrightarrow> Q n2 \<Longrightarrow> R (n1 @ n2)"
  shows "\<exists>new. trace (snd (pbind m g s)) = trace s @ new \<and> R new"
proof -
  obtain r s1 where ms: "m s = (r, s1)" by (cases "m s")
  from m ms obtain n1 where n1: "trace s1 = trace s @ n1" "P n1" by auto
  show ?thesis
  proof (cases r)
    case (Inl x)
    then have "pbind m g s = (Inl x, s1)" using ms by (simp add: pbind_def)
    then show ?thesis using n1 e by auto
  next
    case (Inr a)
    then have p: "pbind m g s = g a s1" using ms by (simp add: pbind_def)
    from g [of a s1] obtain n2 where n2: "trace (snd (g a s1)) = trace s1 @ n2" "Q n2" by blast
    have "trace (snd (pbind m g s)) = trace s @ (n1 @ n2)" using p n1(1) n2(1) by simp
    then show ?thesis using c [OF n1(2) n2(2)] by blast
  qed
qed

lemma quiet_pbind:
  assumes "quiet m" "\<And>a. quiet (g a)"
  shows "quiet (pbind m g)"
  unfolding quiet_def
proof
  fix s
  show "\<exists>new. trace (snd (pbind m g s)) = trace s @ new \<and> inferences new = []"
    apply (rule compose_traces [where P = "\<lambda>n. inferences n = []" and Q = "\<lambda>n. inferences n = []"])
    using assms unfolding quiet_def by (auto simp: inferences_append)
qed

lemma quiet_then_infers:
  assumes "quiet m" "\<And>a. infers_at_most f (g a)"
  shows "infers_at_most f (pbind m g)"
  unfolding infers_at_most_def
proof
  fix s
  show "\<exists>new. trace (snd (pbind m g s)) = trace s @ new \<and>
          (inferences new = [] \<or> inferences new = [f])"
    apply (rule compose_traces [where P = "\<lambda>n. inferences n = []"
          and Q = "\<lambda>n. inferences n = [] \<or> inferences n = [f]"])
    using assms unfolding quiet_def infers_at_most_def by (auto simp: inferences_append)
qed

lemma infers_then_quiet:
  assumes "infers_at_most f m" "\<And>a. quiet (g a)"
  shows "infers_at_most f (pbind m g)"
  unfolding infers_at_most_def
proof
  fix s
  show "\<exists>new. trace (snd (pbind m g s)) = trace s @ new \<and>
          (inferences new = [] \<or> inferences new = [f])"
    apply (rule compose_traces [where Q = "\<lambda>n. inferences n = []"
          and P = "\<lambda>n. inferences n = [] \<or> inferences n = [f]"])
    using assms unfolding quiet_def infers_at_most_def by (auto simp: inferences_append)
qed

lemmas quiet_intros = quiet_pbind quiet_ret quiet_raise quiet_lift quiet_getattr quiet_receiver
  quiet_method_name

lemma quiet_logger_call: "quiet (logger_call E msg)"
  unfolding logger_call_def by (intro quiet_intros quiet_ext_call) simp

lemma quiet_analyze_sequence: "quiet (analyze_sequence E sequence_data game_context)"
  unfolding analyze_sequence_def extract_clean_trajectories_def
  by (intro quiet_intros quiet_ext_call) simp_all

lemma infers_ext_call_inference:
  "infers_at_most f (ext_call g (\<lambda>_. Inference f task))"
  by (simp add: infers_at_most_def ext_call_def Let_def)

lemma quiet_frame_loop_later:
  "idx \<noteq> 0 \<Longrightarrow> quiet (frame_loop E idx frames sequence_data game_context)"
proof (induction frames arbitrary: idx sequence_data game_context)
  case Nil
  show ?case by (simp add: quiet_ret)
next
  case (Cons frame rest)
  have nz: "idx + 1 \<noteq> 0" by simp
  show ?case
    unfolding frame_loop.simps using Cons.prems
    apply simp
    apply (intro quiet_intros quiet_ext_call)
     apply simp
    using Cons.IH [of "Suc idx"] apply simp
    done
qed

lemma infers_frame_loop_first:
  "infers_at_most frame (frame_loop E 0 (frame # rest) sequence_data game_context)"
  unfolding frame_loop.simps
  apply simp
  apply (rule quiet_then_infers, rule quiet_getattr)
  apply (rule quiet_then_infers, rule quiet_receiver)
  apply (rule quiet_then_infers, rule quiet_ext_call, simp)
  apply (rule infers_then_quiet)
   apply (rule quiet_then_infers, rule quiet_logger_call)
   apply (rule quiet_then_infers, rule quiet_getattr)
   apply (rule quiet_then_infers, rule quiet_receiver)
   apply (rule infers_then_quiet, rule infers_ext_call_inference)
   apply (rule quiet_ret)
  apply (rule quiet_pbind, rule quiet_lift)
  using quiet_frame_loop_later [of "Suc 0"] apply simp
  done

lemma frame_loop_inference_once:
  "\<exists>new. trace (snd (frame_loop E 0 frames [] None s)) = trace s @ new \<and>
     (inferences new = [] \<or> (frames \<noteq> [] \<and> inferences new = [frames ! 0]))"
proof (cases frames)
  case Nil
  then show ?thesis by (simp add: ret_def)
next
  case (Cons frame rest)
  then show ?thesis
    using infers_frame_loop_first [of frame E rest "[]" None]
    unfolding infers_at_most_def by auto
qed


lemma after_dataset_once:
  "\<exists>new. trace (snd (pbind (logger_call E msg) (\<lambda>_.
             pbind (frame_loop E 0 frames [] None) (\<lambda>(sequence_data, game_context).
             analyze_sequence E sequence_data game_context)) s)) = trace s @ new \<and>
     (inferences new = [] \<or> (frames \<noteq> [] \<and> inferences new = [frames ! 0]))"
proof (rule compose_traces [where P = "\<lambda>n. inferences n = []"
      and Q = "\<lambda>n. inferences n = [] \<or> (frames \<noteq> [] \<and> inferences n = [frames ! 0])"])
  show "\<exists>n1. trace (snd (logger_call E msg s)) = trace s @ n1 \<and> inferences n1 = []"
    using quiet_logger_call [of E msg] unfolding quiet_def by blast
next
  fix a :: unit and s1
  show "\<exists>n2. trace (snd (pbind (frame_loop E 0 frames [] None)
                 (\<lambda>(sequence_data, game_context).
                    analyze_sequence E sequence_data game_context) s1)) = trace s1 @ n2 \<and>
          (inferences n2 = [] \<or> (frames \<noteq> [] \<and> inferences n2 = [frames ! 0]))"
  proof (rule compose_traces [where Q = "\<lambda>n. inferences n = []"
      and P = "\<lambda>n. inferences n = [] \<or> (frames \<noteq> [] \<and> inferences n = [frames ! 0])"])
    show "\<exists>n1. trace (snd (frame_loop E 0 frames [] None s1)) = trace s1 @ n1 \<and>
            (inferences n1 = [] \<or> (frames \<noteq> [] \<and> inferences n1 = [frames ! 0]))"
      by (rule frame_loop_inference_once)
  next
    fix a :: "frame_data list \<times> string option" and s2
    show "\<exists>n2. trace (snd ((case a of (sequence_data, game_context) \<Rightarrow>
                 analyze_sequence E sequence_data game_context) s2)) = trace s2 @ n2 \<and>
            inferences n2 = []"
      using quiet_analyze_sequence [of E "fst a" "snd a"] unfolding quiet_def
      by (simp add: split_def)
  qed (auto simp: inferences_append)
qed (auto simp: inferences_append)

lemma process_sequence_inference_once:
  "\<exists>new. trace (snd (process_sequence E video_path s)) = trace s @ new \<and>
     (inferences new = [] \<or>
      (\<exists>h r frames.
         generate_photo_dataset E h r video_path 60 ''swing_analysis_frames'' = Inr frames \<and>
         frames \<noteq> [] \<and> inferences new = [frames ! 0]))"
proof -
  let ?Q = "\<lambda>n. inferences n = [] \<or>
      (\<exists>h r frames.
         generate_photo_dataset E h r video_path 60 ''swing_analysis_frames'' = Inr frames \<and>
         frames \<noteq> [] \<and> inferences n = [frames ! 0])"
  let ?tail = "\<lambda>frames. pbind (logger_call E ''Beginning frame analysis'') (\<lambda>_.
     pbind (frame_loop E 0 frames [] None) (\<lambda>(sequence_data, game_context).
     analyze_sequence E sequence_data game_context))"
  have dataset: "\<exists>n. trace (snd (pbind
         (ext_call (\<lambda>h. generate_photo_dataset E h r video_path 60 ''swing_analysis_frames'')
              (\<lambda>_. Photo_dataset video_path 60 ''swing_analysis_frames'')) ?tail s1))
         = trace s1 @ n \<and> ?Q n" for r s1
  proof (cases "generate_photo_dataset E (trace s1) r video_path 60 ''swing_analysis_frames''")
    case (Inl e)
    then show ?thesis
      by (simp add: pbind_def ext_call_def Let_def)
  next
    case (Inr frames)
    let ?s2 = "s1\<lparr>trace := trace s1 @ [Photo_dataset video_path 60 ''swing_analysis_frames'']\<rparr>"
    from after_dataset_once [of E "''Beginning frame analysis''" frames ?s2]
    obtain n where n: "trace (snd (?tail frames ?s2)) = trace ?s2 @ n"
      "inferences n = [] \<or> (frames \<noteq> [] \<and> inferences n = [frames ! 0])" by blast
    have "trace (snd (pbind
         (ext_call (\<lambda>h. generate_photo_dataset E h r video_path 60 ''swing_analysis_frames'')
              (\<lambda>_. Photo_dataset video_path 60 ''swing_analysis_frames'')) ?tail s1))
         = trace s1 @ (Photo_dataset video_path 60 ''swing_analysis_frames'' # n)"
      using Inr n(1) by (simp add: pbind_def ext_call_def Let_def)
    moreover have "?Q (Photo_dataset video_path 60 ''swing_analysis_frames'' # n)"
      using n(2) Inr by auto
    ultimately show ?thesis by blast
  qed
  have recv: "\<exists>n. trace (snd (pbind (receiver dt ''generate_photo_dataset'') (\<lambda>r. pbind
         (ext_call (\<lambda>h. generate_photo_dataset E h r video_path 60 ''swing_analysis_frames'')
              (\<lambda>_. Photo_dataset video_path 60 ''swing_analysis_frames'')) ?tail) s1))
         = trace s1 @ n \<and> ?Q n" for dt s1
  proof (rule compose_traces [where P = "\<lambda>n. inferences n = []" and Q = ?Q])
    show "\<exists>n1. trace (snd (receiver dt ''generate_photo_dataset'' s1)) = trace s1 @ n1 \<and>
            inferences n1 = []"
      using quiet_receiver [of dt "''generate_photo_dataset''"] unfolding quiet_def by blast
  qed (use dataset in \<open>auto simp: inferences_append\<close>)
  have attr: "\<exists>n. trace (snd (pbind (getattr data_tools ''data_tools'') (\<lambda>dt.
         pbind (receiver dt ''generate_photo_dataset'') (\<lambda>r. pbind
         (ext_call (\<lambda>h. generate_photo_dataset E h r video_path 60 ''swing_analysis_frames'')
              (\<lambda>_. Photo_dataset video_path 60 ''swing_analysis_frames'')) ?tail)) s1))
         = trace s1 @ n \<and> ?Q n" for s1
  proof (rule compose_traces [where P = "\<lambda>n. inferences n = []" and Q = ?Q])
    show "\<exists>n1. trace (snd (getattr data_tools ''data_tools'' s1)) = trace s1 @ n1 \<and>
            inferences n1 = []"
      using quiet_getattr [of data_tools "''data_tools''"] unfolding quiet_def by blast
  qed (use recv in \<open>auto simp: inferences_append\<close>)
  show ?thesis
    unfolding process_sequence_def
  proof (rule compose_traces [where P = "\<lambda>n. inferences n = []" and Q = ?Q])
    show "\<exists>n1. trace (snd (logger_call E ''Extracting frames from video sequence'' s))
            = trace s @ n1 \<and> inferences n1 = []"
      using quiet_logger_call [of E "''Extracting frames from video sequence''"]
      unfolding quiet_def by blast
  qed (use attr in \<open>auto simp: inferences_append\<close>)
qed

text \<open>
  C10 says that a video of no frames gives a result whose \<open>game_situation\<close> is \<open>None\<close>.
  On an object with all its attributes the context model is indeed not called, but
  \<open>process_sequence\<close> returns no result: it raises AttributeError on
  \<open>interpolate_missing_trajectories\<close>.
\<close>

theorem process_sequence_no_frames_raises:
  "process_sequence no_frames_env ''swing_sequence.mp4'' ready_state =
     (Inl (attribute_error ''BatTrackingPipeline'' ''interpolate_missing_trajectories''),
      ready_state\<lparr>trace := [Logged ''Extracting frames from video sequence'',
        Photo_dataset ''swing_sequence.mp4'' 60 ''swing_analysis_frames'',
        Logged ''Beginning frame analysis'']\<rparr>)"
  by (simp add: process_sequence_def logger_call_def analyze_sequence_def
      extract_clean_trajectories_def prog_defs no_frames_env_def demo_env_def ready_state_def)

section \<open>The order of the extracted frames\<close>

lemma calm_ret: "calm (ret a)"
  by (simp add: calm_def ret_def)

lemma calm_raise: "calm (raise e)"
  by (simp add: calm_def raise_def)

lemma calm_lift: "calm (lift r)"
  by (simp add: calm_def lift_def)

lemma calm_getattr: "calm (getattr slot n)"
  by (simp add: calm_def getattr_def split: option.splits)

lemma calm_receiver: "calm (receiver v m)"
  by (simp add: receiver_def calm_ret calm_raise split: pyobj.splits)

lemma calm_method_name: "calm (method_name n)"
  by (simp add: method_name_def calm_ret calm_raise)

lemma calm_ext_call: "(\<And>r. predict_calls [ev r] = []) \<Longrightarrow> calm (ext_call f ev)"
  by (simp add: calm_def ext_call_def Let_def)

lemma calm_pbind:
  assumes "calm m" "\<And>a. calm (g a)"
  shows "calm (pbind m g)"
  unfolding calm_def
proof
  fix s
  show "\<exists>new. trace (snd (pbind m g s)) = trace s @ new \<and> predict_calls new = []"
    apply (rule compose_traces [where P = "\<lambda>n. predict_calls n = []"
          and Q = "\<lambda>n. predict_calls n = []"])
    using assms unfolding calm_def by (auto simp: predict_calls_append)
qed

lemmas calm_intros = calm_pbind calm_ret calm_raise calm_lift calm_getattr calm_receiver
  calm_method_name

lemma calm_logger_call: "calm (logger_call E msg)"
  unfolding logger_call_def by (intro calm_intros calm_ext_call) simp

lemma calm_analyze_sequence: "calm (analyze_sequence E sequence_data game_context)"
  unfolding analyze_sequence_def extract_clean_trajectories_def
  by (intro calm_intros calm_ext_call) simp_all

lemma calm_context_step:
  "calm (if idx = 0 then
              pbind (logger_call E msg) (\<lambda>_.
              pbind (getattr context_model ''context_model'') (\<lambda>cm.
              pbind (receiver cm ''inference'') (\<lambda>c.
              pbind (ext_call (\<lambda>h. inference E h c frame task) (\<lambda>_. Inference frame task)) (\<lambda>g.
              ret (Some g)))))
            else ret game_context)"
proof (cases "idx = 0")
  case True
  have "calm (pbind (logger_call E msg) (\<lambda>_.
              pbind (getattr context_model ''context_model'') (\<lambda>cm.
              pbind (receiver cm ''inference'') (\<lambda>c.
              pbind (ext_call (\<lambda>h. inference E h c frame task) (\<lambda>_. Inference frame task)) (\<lambda>g.
              ret (Some g))))))"
    by (intro calm_intros calm_logger_call calm_ext_call) simp
  with True show ?thesis by simp
next
  case False
  then show ?thesis by (simp add: calm_ret)
qed

text \<open>In every run of the frame loop, however it ends, the calls of \<open>predict\<close> are on
  an initial segment of the frames, in order.\<close>

lemma frame_loop_predicts_prefix:
  "\<exists>new. trace (snd (frame_loop E idx frames sequence_data game_context s)) = trace s @ new \<and>
     (\<exists>k. predict_calls new = take k frames)"
proof (induction frames arbitrary: idx sequence_data game_context s)
  case Nil
  show ?case by (simp add: ret_def)
next
  case (Cons frame rest)
  let ?P = "\<lambda>n. predict_calls n = []"
  let ?Q = "\<lambda>n. \<exists>k. predict_calls n = take k rest"
  let ?R = "\<lambda>n. \<exists>k. predict_calls n = take k (frame # rest)"
  let ?ctx = "if idx = 0 then
              pbind (logger_call E ''Analyzing game context'') (\<lambda>_.
              pbind (getattr context_model ''context_model'') (\<lambda>cm.
              pbind (receiver cm ''inference'') (\<lambda>c.
              pbind (ext_call (\<lambda>h. inference E h c frame ''<BATTING_CONTEXT>'')
                       (\<lambda>_. Inference frame ''<BATTING_CONTEXT>'')) (\<lambda>g.
              ret (Some g)))))
            else ret game_context"
  let ?after = "\<lambda>bat_results. pbind ?ctx (\<lambda>game_context'.
     pbind (lift (process_frame_results E bat_results)) (\<lambda>frame_data.
     frame_loop E (idx + 1) rest (sequence_data @ [frame_data]) game_context'))"
  have after: "\<exists>n. trace (snd (?after p s1)) = trace s1 @ n \<and> ?Q n" for p s1
  proof (rule compose_traces [where P = ?P and Q = ?Q])
    show "\<exists>n1. trace (snd (?ctx s1)) = trace s1 @ n1 \<and> predict_calls n1 = []"
      using calm_context_step [of idx E "''Analyzing game context''" frame
          "''<BATTING_CONTEXT>''" game_context]
      unfolding calm_def by blast
  next
    fix gc' s2
    show "\<exists>n2. trace (snd (pbind (lift (process_frame_results E p)) (\<lambda>frame_data.
             frame_loop E (idx + 1) rest (sequence_data @ [frame_data]) gc') s2)) = trace s2 @ n2 \<and>
           ?Q n2"
    proof (rule compose_traces [where P = ?P and Q = ?Q])
      show "\<exists>n1. trace (snd (lift (process_frame_results E p) s2)) = trace s2 @ n1 \<and>
              predict_calls n1 = []"
        by (simp add: lift_def)
    next
      fix fd s3
      show "\<exists>n2. trace (snd (frame_loop E (idx + 1) rest (sequence_data @ [fd]) gc' s3))
              = trace s3 @ n2 \<and> ?Q n2"
        by (rule Cons.IH)
    next
      fix n1 assume "predict_calls n1 = []"
      then show "?Q n1" by (intro exI [of _ 0]) simp
    qed (simp add: predict_calls_append)
  next
    fix n1 assume "predict_calls n1 = []"
    then show "?Q n1" by (intro exI [of _ 0]) simp
  qed (simp add: predict_calls_append)
  have call: "\<exists>n. trace (snd (pbind
        (ext_call (\<lambda>h. predict E h r frame (3 / 10) False) (Predict frame)) ?after s1))
        = trace s1 @ n \<and> ?R n" for r s1
  proof (cases "predict E (trace s1) r frame (3 / 10) False")
    case (Inl e)
    then have "trace (snd (pbind
        (ext_call (\<lambda>h. predict E h r frame (3 / 10) False) (Predict frame)) ?after s1))
        = trace s1 @ [Predict frame (Inl e)]"
      by (simp add: pbind_def ext_call_def Let_def)
    moreover have "predict_calls [Predict frame (Inl e)] = take 1 (frame # rest)" by simp
    ultimately show ?thesis by blast
  next
    case (Inr p)
    let ?s2 = "s1\<lparr>trace := trace s1 @ [Predict frame (Inr p)]\<rparr>"
    from after [of p ?s2] obtain n k where
      n: "trace (snd (?after p ?s2)) = trace ?s2 @ n" "predict_calls n = take k rest" by blast
    have "trace (snd (pbind
        (ext_call (\<lambda>h. predict E h r frame (3 / 10) False) (Predict frame)) ?after s1))
        = trace s1 @ (Predict frame (Inr p) # n)"
      using Inr n(1) by (simp add: pbind_def ext_call_def Let_def)
    moreover have "predict_calls (Predict frame (Inr p) # n) = take (Suc k) (frame # rest)"
      using n(2) by simp
    ultimately show ?thesis by blast
  qed
  have recv: "\<exists>n. trace (snd (pbind (receiver bm ''predict'') (\<lambda>r. pbind
        (ext_call (\<lambda>h. predict E h r frame (3 / 10) False) (Predict frame)) ?after) s1))
        = trace s1 @ n \<and> ?R n" for bm s1
  proof (rule compose_traces [where P = ?P and Q = ?R])
    show "\<exists>n1. trace (snd (receiver bm ''predict'' s1)) = trace s1 @ n1 \<and> predict_calls n1 = []"
      using calm_receiver [of bm "''predict''"] unfolding calm_def by blast
  next
    fix n1 assume "predict_calls n1 = []"
    then show "?R n1" by (intro exI [of _ 0]) simp
  qed (use call in \<open>auto simp: predict_calls_append\<close>)
  show ?case
    unfolding frame_loop.simps
  proof (rule compose_traces [where P = ?P and Q = ?R])
    show "\<exists>n1. trace (snd (getattr bat_model ''bat_model'' s)) = trace s @ n1 \<and>
            predict_calls n1 = []"
      using calm_getattr [of bat_model "''bat_model''"] unfolding calm_def by blast
  next
    fix n1 assume "predict_calls n1 = []"
    then show "?R n1" by (intro exI [of _ 0]) simp
  qed (use recv in \<open>auto simp: predict_calls_append\<close>)
qed


lemma after_dataset_predicts_prefix:
  "\<exists>new. trace (snd (pbind (logger_call E msg) (\<lambda>_.
             pbind (frame_loop E 0 frames [] None) (\<lambda>(sequence_data, game_context).
             analyze_sequence E sequence_data game_context)) s)) = trace s @ new \<and>
     (\<exists>k. predict_calls new = take k frames)"
proof (rule compose_traces [where P = "\<lambda>n. predict_calls n = []"
      and Q = "\<lambda>n. \<exists>k. predict_calls n = take k frames"])
  show "\<exists>n1. trace (snd (logger_call E msg s)) = trace s @ n1 \<and> predict_calls n1 = []"
    using calm_logger_call [of E msg] unfolding calm_def by blast
next
  fix a :: unit and s1
  show "\<exists>n2. trace (snd (pbind (frame_loop E 0 frames [] None)
                 (\<lambda>(sequence_data, game_context).
                    analyze_sequence E sequence_data game_context) s1)) = trace s1 @ n2 \<and>
          (\<exists>k. predict_calls n2 = take k frames)"
  proof (rule compose_traces [where Q = "\<lambda>n. predict_calls n = []"
      and P = "\<lambda>n. \<exists>k. predict_calls n = take k frames"])
    show "\<exists>n1. trace (snd (frame_loop E 0 frames [] None s1)) = trace s1 @ n1 \<and>
            (\<exists>k. predict_calls n1 = take k frames)"
      by (rule frame_loop_predicts_prefix)
  next
    fix a :: "frame_data list \<times> string option" and s2
    show "\<exists>n2. trace (snd ((case a of (sequence_data, game_context) \<Rightarrow>
                 analyze_sequence E sequence_data game_context) s2)) = trace s2 @ n2 \<and>
            predict_calls n2 = []"
      using calm_analyze_sequence [of E "fst a" "snd a"] unfolding calm_def
      by (simp add: split_def)
  qed (auto simp: predict_calls_append)
next
  fix n1 assume "predict_calls n1 = []"
  then show "\<exists>k. predict_calls n1 = take k frames" by (intro exI [of _ 0]) simp
qed (auto simp: predict_calls_append)

lemma process_sequence_predicts_prefix:
  "\<exists>new. trace (snd (process_sequence E video_path s)) = trace s @ new \<and>
     (predict_calls new = [] \<or>
      (\<exists>h r frames k.
         generate_photo_dataset E h r video_path 60 ''swing_analysis_frames'' = Inr frames \<and>
         predict_calls new = take k frames))"
proof -
  let ?Q = "\<lambda>n. predict_calls n = [] \<or>
      (\<exists>h r frames k.
         generate_photo_dataset E h r video_path 60 ''swing_analysis_frames'' = Inr frames \<and>
         predict_calls n = take k frames)"
  let ?tail = "\<lambda>frames. pbind (logger_call E ''Beginning frame analysis'') (\<lambda>_.
     pbind (frame_loop E 0 frames [] None) (\<lambda>(sequence_data, game_context).
     analyze_sequence E sequence_data game_context))"
  have dataset: "\<exists>n. trace (snd (pbind
         (ext_call (\<lambda>h. generate_photo_dataset E h r video_path 60 ''swing_analysis_frames'')
              (\<lambda>_. Photo_dataset video_path 60 ''swing_analysis_frames'')) ?tail s1))
         = trace s1 @ n \<and> ?Q n" for r s1
  proof (cases "generate_photo_dataset E (trace s1) r video_path 60 ''swing_analysis_frames''")
    case (Inl e)
    then show ?thesis
      by (simp add: pbind_def ext_call_def Let_def)
  next
    case (Inr frames)
    let ?s2 = "s1\<lparr>trace := trace s1 @ [Photo_dataset video_path 60 ''swing_analysis_frames'']\<rparr>"
    from after_dataset_predicts_prefix [of E "''Beginning frame analysis''" frames ?s2]
    obtain n k where n: "trace (snd (?tail frames ?s2)) = trace ?s2 @ n"
      "predict_calls n = take k frames" by blast
    have "trace (snd (pbind
         (ext_call (\<lambda>h. generate_photo_dataset E h r video_path 60 ''swing_analysis_frames'')
              (\<lambda>_. Photo_dataset video_path 60 ''swing_analysis_frames'')) ?tail s1))
         = trace s1 @ (Photo_dataset video_path 60 ''swing_analysis_frames'' # n)"
      using Inr n(1) by (simp add: pbind_def ext_call_def Let_def)
    moreover have "?Q (Photo_dataset video_path 60 ''swing_analysis_frames'' # n)"
      using n(2) Inr by auto
    ultimately show ?thesis by blast
  qed
  have recv: "\<exists>n. trace (snd (pbind (receiver dt ''generate_photo_dataset'') (\<lambda>r. pbind
         (ext_call (\<lambda>h. generate_photo_dataset E h r video_path 60 ''swing_analysis_frames'')
              (\<lambda>_. Photo_dataset video_path 60 ''swing_analysis_frames'')) ?tail) s1))
         = trace s1 @ n \<and> ?Q n" for dt s1
  proof (rule compose_traces [where P = "\<lambda>n. predict_calls n = []" and Q = ?Q])
    show "\<exists>n1. trace (snd (receiver dt ''generate_photo_dataset'' s1)) = trace s1 @ n1 \<and>
            predict_calls n1 = []"
      using calm_receiver [of dt "''generate_photo_dataset''"] unfolding calm_def by blast
  qed (use dataset in \<open>auto simp: predict_calls_append\<close>)
  have attr: "\<exists>n. trace (snd (pbind (getattr data_tools ''data_tools'') (\<lambda>dt.
         pbind (receiver dt ''generate_photo_dataset'') (\<lambda>r. pbind
         (ext_call (\<lambda>h. generate_photo_dataset E h r video_path 60 ''swing_analysis_frames'')
              (\<lambda>_. Photo_dataset video_path 60 ''swing_analysis_frames'')) ?tail)) s1))
         = trace s1 @ n \<and> ?Q n" for s1
  proof (rule compose_traces [where P = "\<lambda>n. predict_calls n = []" and Q = ?Q])
    show "\<exists>n1. trace (snd (getattr data_tools ''data_tools'' s1)) = trace s1 @ n1 \<and>
            predict_calls n1 = []"
      using calm_getattr [of data_tools "''data_tools''"] unfolding calm_def by blast
  qed (use recv in \<open>auto simp: predict_calls_append\<close>)
  show ?thesis
    unfolding process_sequence_def
  proof (rule compose_traces [where P = "\<lambda>n. predict_calls n = []" and Q = ?Q])
    show "\<exists>n1. trace (snd (logger_call E ''Extracting frames from video sequence'' s))
            = trace s @ n1 \<and> predict_calls n1 = []"
      using calm_logger_call [of E "''Extracting frames from video sequence''"]
      unfolding calm_def by blast
  qed (use attr in \<open>auto simp: predict_calls_append\<close>)
qed

text \<open>When the libraries answer and the loop completes, \<open>process_sequence\<close> hands the
  sequence data of the loop to \<open>analyze_sequence\<close>.\<close>

lemma process_sequence_reaches_analysis:
  assumes "logger (pipeline_obj s) = Some (Obj lg)"
    and "data_tools (pipeline_obj s) = Some (Obj dt)"
    and "logger_info E (trace s) lg ''Extracting frames from video sequence'' = Inr ()"
    and "generate_photo_dataset E (trace s @ [Logged ''Extracting frames from video sequence''])
           dt video_path 60 ''swing_analysis_frames'' = Inr frames"
    and "logger_info E (trace s @ [Logged ''Extracting frames from video sequence'',
           Photo_dataset video_path 60 ''swing_analysis_frames'']) lg
           ''Beginning frame analysis'' = Inr ()"
    and "frame_loop E 0 frames [] None
           (s\<lparr>trace := trace s @ [Logged ''Extracting frames from video sequence'',
              Photo_dataset video_path 60 ''swing_analysis_frames'',
              Logged ''Beginning frame analysis'']\<rparr>) = (Inr (sequence_data, game_context), s2)"
  shows "process_sequence E video_path s = analyze_sequence E sequence_data game_context s2"
  using assms
  by (simp add: process_sequence_def logger_call_def pbind_def getattr_def receiver_def ret_def
      ext_call_def Let_def)

text \<open>
  C7. \<open>process_sequence\<close> handles the extracted frames one at a time and in their
  order. In every run, however it ends, the calls of \<open>bat_model.predict\<close> are on an
  initial segment of the list that \<open>generate_photo_dataset\<close> returned, frame by frame
  in the order of that list. When the logger and \<open>generate_photo_dataset\<close> answer and the
  loop over the extracted frames completes, \<open>predict\<close> has been called exactly once on
  each extracted frame, the i-th entry of the \<open>sequence_data\<close> that is handed to
  \<open>analyze_sequence\<close> is \<open>process_frame_results\<close> of the prediction returned for the
  i-th extracted frame, and there are as many entries as frames.
\<close>

theorem process_sequence_preserves_frame_order:
  "(\<exists>new. trace (snd (process_sequence E video_path s)) = trace s @ new \<and>
     (predict_calls new = [] \<or>
      (\<exists>h r frames k.
         generate_photo_dataset E h r video_path 60 ''swing_analysis_frames'' = Inr frames \<and>
         predict_calls new = take k frames))) \<and>
   (logger (pipeline_obj s) = Some (Obj lg) \<longrightarrow>
    data_tools (pipeline_obj s) = Some (Obj dt) \<longrightarrow>
    logger_info E (trace s) lg ''Extracting frames from video sequence'' = Inr () \<longrightarrow>
    generate_photo_dataset E (trace s @ [Logged ''Extracting frames from video sequence''])
      dt video_path 60 ''swing_analysis_frames'' = Inr frames \<longrightarrow>
    logger_info E (trace s @ [Logged ''Extracting frames from video sequence'',
      Photo_dataset video_path 60 ''swing_analysis_frames'']) lg
      ''Beginning frame analysis'' = Inr () \<longrightarrow>
    frame_loop E 0 frames [] None
      (s\<lparr>trace := trace s @ [Logged ''Extracting frames from video sequence'',
         Photo_dataset video_path 60 ''swing_analysis_frames'',
         Logged ''Beginning frame analysis'']\<rparr>) = (Inr (sequence_data, game_context), s2) \<longrightarrow>
      process_sequence E video_path s = analyze_sequence E sequence_data game_context s2 \<and>
      (\<exists>new. trace (snd (process_sequence E video_path s)) =
           trace s @ [Logged ''Extracting frames from video sequence'',
             Photo_dataset video_path 60 ''swing_analysis_frames'',
             Logged ''Beginning frame analysis''] @ new \<and>
         predict_calls new = frames \<and>
         length (predictions new) = length frames \<and>
         length sequence_data = length frames \<and>
         (\<forall>i < length frames.
            fst (predictions new ! i) = frames ! i \<and>
            (\<exists>h r. predict E h r (frames ! i) (3 / 10) False = Inr (snd (predictions new ! i))) \<and>
            process_frame_results E (snd (predictions new ! i)) = Inr (sequence_data ! i))))"
proof (intro conjI impI)
  show "\<exists>new. trace (snd (process_sequence E video_path s)) = trace s @ new \<and>
     (predict_calls new = [] \<or>
      (\<exists>h r frames k.
         generate_photo_dataset E h r video_path 60 ''swing_analysis_frames'' = Inr frames \<and>
         predict_calls new = take k frames))"
    by (rule process_sequence_predicts_prefix)
next
  assume a: "logger (pipeline_obj s) = Some (Obj lg)"
    "data_tools (pipeline_obj s) = Some (Obj dt)"
    "logger_info E (trace s) lg ''Extracting frames from video sequence'' = Inr ()"
    "generate_photo_dataset E (trace s @ [Logged ''Extracting frames from video sequence''])
           dt video_path 60 ''swing_analysis_frames'' = Inr frames"
    "logger_info E (trace s @ [Logged ''Extracting frames from video sequence'',
           Photo_dataset video_path 60 ''swing_analysis_frames'']) lg
           ''Beginning frame analysis'' = Inr ()"
    "frame_loop E 0 frames [] None
           (s\<lparr>trace := trace s @ [Logged ''Extracting frames from video sequence'',
              Photo_dataset video_path 60 ''swing_analysis_frames'',
              Logged ''Beginning frame analysis'']\<rparr>) = (Inr (sequence_data, game_context), s2)"
  show eq: "process_sequence E video_path s = analyze_sequence E sequence_data game_context s2"
    using a by (rule process_sequence_reaches_analysis)
  from frame_loop_preserves_order [OF a(6)] obtain new where
    n: "trace s2 = trace (s\<lparr>trace := trace s @ [Logged ''Extracting frames from video sequence'',
              Photo_dataset video_path 60 ''swing_analysis_frames'',
              Logged ''Beginning frame analysis'']\<rparr>) @ new"
      "length sequence_data = length frames"
      "length (predictions new) = length frames"
      "predict_calls new = frames"
      "\<forall>i < length frames.
            fst (predictions new ! i) = frames ! i \<and>
            (\<exists>h r. predict E h r (frames ! i) (3 / 10) False = Inr (snd (predictions new ! i))) \<and>
            process_frame_results E (snd (predictions new ! i)) = Inr (sequence_data ! i)"
    by blast
  have "snd (analyze_sequence E sequence_data game_context s2) = s2"
    by (simp add: analyze_sequence_def extract_clean_trajectories_raises pbind_def)
  then have "trace (snd (process_sequence E video_path s)) =
           trace s @ [Logged ''Extracting frames from video sequence'',
             Photo_dataset video_path 60 ''swing_analysis_frames'',
             Logged ''Beginning frame analysis''] @ new"
    using eq n(1) by simp
  with n(2-5) show "\<exists>new. trace (snd (process_sequence E video_path s)) =
           trace s @ [Logged ''Extracting frames from video sequence'',
             Photo_dataset video_path 60 ''swing_analysis_frames'',
             Logged ''Beginning frame analysis''] @ new \<and>
         predict_calls new = frames \<and>
         length (predictions new) = length frames \<and>
         length sequence_data = length frames \<and>
         (\<forall>i < length frames.
            fst (predictions new ! i) = frames ! i \<and>
            (\<exists>h r. predict E h r (frames ! i) (3 / 10) False = Inr (snd (predictions new ! i))) \<and>
            process_frame_results E (snd (predictions new ! i)) = Inr (sequence_data ! i))"
    by blast
qed


lemma demo_frame_loop_from:
  "frame_loop demo_env 0 [''frame_0'', ''frame_1''] [] None (ready_state\<lparr>trace := evs\<rparr>) =
     (Inr (demo_sequence_data, Some ''two outs, runner on first''),
      ready_state\<lparr>trace := evs @ demo_loop_events\<rparr>)"
proof -
  have p: "predict demo_env = (\<lambda>h r f c v.
        Inr (if f = ''frame_0'' then Prediction 0 demo_boxes else Prediction 1 []))"
    "inference demo_env = (\<lambda>h r f task. Inr ''two outs, runner on first'')"
    "logger_info demo_env = (\<lambda>h r msg. Inr ())"
    by (simp_all add: demo_env_def)
  show ?thesis
    by (simp add: prog_defs logger_call_def p demo_frame_0 demo_frame_1 ready_state_def
        demo_sequence_data_def demo_loop_events_def)
qed

theorem process_sequence_preserves_frame_order_witness:
  "logger (pipeline_obj ready_state) = Some (Obj 5) \<and>
   data_tools (pipeline_obj ready_state) = Some (Obj 2) \<and>
   generate_photo_dataset demo_env
     (trace ready_state @ [Logged ''Extracting frames from video sequence'']) 2
     ''swing_sequence.mp4'' 60 ''swing_analysis_frames'' = Inr [''frame_0'', ''frame_1''] \<and>
   frame_loop demo_env 0 [''frame_0'', ''frame_1''] [] None
     (ready_state\<lparr>trace := trace ready_state @ demo_prefix\<rparr>) =
       (Inr (demo_sequence_data, Some ''two outs, runner on first''),
        ready_state\<lparr>trace := demo_prefix @ demo_loop_events\<rparr>) \<and>
   process_sequence demo_env ''swing_sequence.mp4'' ready_state =
     analyze_sequence demo_env demo_sequence_data (Some ''two outs, runner on first'')
       (ready_state\<lparr>trace := demo_prefix @ demo_loop_events\<rparr>) \<and>
   (\<exists>new. trace (snd (process_sequence demo_env ''swing_sequence.mp4'' ready_state)) =
        trace ready_state @ demo_prefix @ new \<and>
      predict_calls new = [''frame_0'', ''frame_1''] \<and>
      fst (predictions new ! 1) = ''frame_1'' \<and>
      process_frame_results demo_env (snd (predictions new ! 1)) = Inr (demo_sequence_data ! 1))"
proof -
  have t: "trace ready_state = []" by (simp add: ready_state_def)
  have h1: "logger (pipeline_obj ready_state) = Some (Obj 5)" by (simp add: ready_state_def)
  have h2: "data_tools (pipeline_obj ready_state) = Some (Obj 2)" by (simp add: ready_state_def)
  have h3: "logger_info demo_env (trace ready_state) 5
      ''Extracting frames from video sequence'' = Inr ()"
    by (simp add: demo_env_def)
  have h4: "generate_photo_dataset demo_env
     (trace ready_state @ [Logged ''Extracting frames from video sequence'']) 2
     ''swing_sequence.mp4'' 60 ''swing_analysis_frames'' = Inr [''frame_0'', ''frame_1'']"
    by (simp add: demo_env_def)
  have h5: "logger_info demo_env (trace ready_state @
      [Logged ''Extracting frames from video sequence'',
       Photo_dataset ''swing_sequence.mp4'' 60 ''swing_analysis_frames'']) 5
      ''Beginning frame analysis'' = Inr ()"
    by (simp add: demo_env_def)
  have h6: "frame_loop demo_env 0 [''frame_0'', ''frame_1''] [] None
     (ready_state\<lparr>trace := trace ready_state @
        [Logged ''Extracting frames from video sequence'',
         Photo_dataset ''swing_sequence.mp4'' 60 ''swing_analysis_frames'',
         Logged ''Beginning frame analysis'']\<rparr>) =
       (Inr (demo_sequence_data, Some ''two outs, runner on first''),
        ready_state\<lparr>trace := demo_prefix @ demo_loop_events\<rparr>)"
    using demo_frame_loop_from [of demo_prefix] by (simp add: t demo_prefix_def)
  note c = process_sequence_preserves_frame_order
    [of demo_env "''swing_sequence.mp4''" ready_state 5 2 "[''frame_0'', ''frame_1'']"
      demo_sequence_data "Some ''two outs, runner on first''"
      "ready_state\<lparr>trace := demo_prefix @ demo_loop_events\<rparr>",
      THEN conjunct2, rule_format, OF h1 h2 h3 h4 h5 h6]
  from c obtain new where
    n: "trace (snd (process_sequence demo_env ''swing_sequence.mp4'' ready_state)) =
           trace ready_state @ [Logged ''Extracting frames from video sequence'',
             Photo_dataset ''swing_sequence.mp4'' 60 ''swing_analysis_frames'',
             Logged ''Beginning frame analysis''] @ new"
      "predict_calls new = [''frame_0'', ''frame_1'']"
      "\<forall>i < length [''frame_0'', ''frame_1''].
            fst (predictions new ! i) = [''frame_0'', ''frame_1''] ! i \<and>
            (\<exists>h r. predict demo_env h r ([''frame_0'', ''frame_1''] ! i) (3 / 10) False =
               Inr (snd (predictions new ! i))) \<and>
            process_frame_results demo_env (snd (predictions new ! i)) =
              Inr (demo_sequence_data ! i)"
    by blast
  from n(3) have i1: "fst (predictions new ! 1) = ''frame_1'' \<and>
      process_frame_results demo_env (snd (predictions new ! 1)) = Inr (demo_sequence_data ! 1)"
    by simp
  have "\<exists>new. trace (snd (process_sequence demo_env ''swing_sequence.mp4'' ready_state)) =
        trace ready_state @ demo_prefix @ new \<and>
      predict_calls new = [''frame_0'', ''frame_1''] \<and>
      fst (predictions new ! 1) = ''frame_1'' \<and>
      process_frame_results demo_env (snd (predictions new ! 1)) = Inr (demo_sequence_data ! 1)"
    using n(1) n(2) i1 unfolding demo_prefix_def by blast
  moreover have "frame_loop demo_env 0 [''frame_0'', ''frame_1''] [] None
     (ready_state\<lparr>trace := trace ready_state @ demo_prefix\<rparr>) =
       (Inr (demo_sequence_data, Some ''two outs, runner on first''),
        ready_state\<lparr>trace := demo_prefix @ demo_loop_events\<rparr>)"
    using h6 by (simp add: demo_prefix_def)
  ultimately show ?thesis using h1 h2 h4 c by blast
qed

end
